theory Spec2Isabelle
  imports Main "HOL-Library.Sublist" "HOL-Library.AList" "HOL-Library.Word"
begin

section \<open>Strings as the scripts use them\<close>

text \<open>
  Python strings are modelled as \<open>string\<close> (lists of byte-sized characters).
  \<open>s.lower()\<close> is modelled on the ASCII letters; \<open>p in s\<close> between two strings is
  the contiguous-substring test, \<open>sublist p s\<close>.
\<close>

definition lower_char :: "char \<Rightarrow> char" where
  "lower_char c =
     (let n = (of_char c :: nat) in if 65 \<le> n \<and> n \<le> 90 then char_of (n + 32) else c)"

definition lower :: "string \<Rightarrow> string" where
  "lower s = map lower_char s"

definition str_in :: "string \<Rightarrow> string \<Rightarrow> bool" where
  "str_in p s = sublist p s"

section \<open>The error classifiers of the monitoring scripts\<close>

text \<open>
  \<open>LogAnalyzer.classify_error\<close> of \<open>src/monitoring/log_analyzer.py\<close>: an
  \<open>if\<close>/\<open>elif\<close> chain over the message and its lower-cased copy.
\<close>

definition classify_error :: "string \<Rightarrow> string" where
  "classify_error error_msg =
     (let error_msg_lower = lower error_msg in
      if str_in ''401'' error_msg \<or> str_in ''unauthorized'' error_msg_lower then ''Authentication''
      else if str_in ''404'' error_msg \<or> str_in ''not found'' error_msg_lower then ''File Not Found''
      else if str_in ''timeout'' error_msg_lower then ''Timeout''
      else if str_in ''connection'' error_msg_lower then ''Connection''
      else if str_in ''429'' error_msg then ''Rate Limit''
      else if str_in ''500'' error_msg \<or> str_in ''503'' error_msg then ''Server Error''
      else ''Other'')"

text \<open>
  \<open>SharePointDashboard.classify_error\<close> of \<open>src/monitoring/dashboard_monitor.py\<close>:
  the same chain with more patterns and one more branch, \<open>Permission\<close>, between the
  connection and the rate-limit checks.
\<close>

definition dashboard_classify_error :: "string \<Rightarrow> string" where
  "dashboard_classify_error error_msg =
     (let error_msg_lower = lower error_msg in
      if str_in ''401'' error_msg \<or> str_in ''unauthorized'' error_msg_lower then ''Authentication''
      else if str_in ''404'' error_msg \<or> str_in ''not found'' error_msg_lower then ''File Not Found''
      else if str_in ''timeout'' error_msg_lower \<or> str_in ''timed out'' error_msg_lower then ''Timeout''
      else if str_in ''connection'' error_msg_lower then ''Connection''
      else if str_in ''permission'' error_msg_lower \<or> str_in ''access'' error_msg_lower then ''Permission''
      else if str_in ''429'' error_msg \<or> str_in ''rate limit'' error_msg_lower then ''Rate Limit''
      else if str_in ''500'' error_msg \<or> str_in ''503'' error_msg \<or> str_in ''502'' error_msg
        then ''Server Error''
      else ''Other'')"

text \<open>The kinds the claim lists: the six checked ones and the fallback.\<close>

definition error_kinds :: "string set" where
  "error_kinds = {''Authentication'', ''File Not Found'', ''Timeout'', ''Connection'',
                  ''Rate Limit'', ''Server Error'', ''Other''}"

section \<open>The production migrator: data\<close>

text \<open>
  \<open>src/onelake_migrator_production.py\<close>. The class \<open>Config\<close> holds constants; the
  model takes the batch size as a field so that the loop can be studied at every size,
  and \<open>production_config\<close> gives the values of the script.
\<close>

record config =
  ONELAKE_BASE_URL :: string
  WORKSPACE_ID :: string
  LAKEHOUSE_ID :: string
  BATCH_SIZE :: int
  PROGRESS_FILE :: string

definition production_config :: config where
  "production_config =
     \<lparr>ONELAKE_BASE_URL = ''https://onelake.dfs.fabric.microsoft.com'',
      WORKSPACE_ID = ''abc64232-25a2-499d-90ae-9fe5939ae437'',
      LAKEHOUSE_ID = ''a622b04f-1094-4f9b-86fd-5105f4778f76'',
      BATCH_SIZE = 100,
      PROGRESS_FILE = ''migration_progress_production.json''\<rparr>"

type_synonym bytes = "8 word list"

text \<open>
  An element of the cached file list. The cache is JSON, so an element is either an
  object, of which the script reads \<open>path\<close>, \<open>relative_path\<close> and \<open>size_bytes\<close>
  with \<open>dict.get\<close> (\<open>None\<close> when the key is absent), or some other JSON value, on
  which \<open>.get\<close> raises \<open>AttributeError\<close>.
\<close>

datatype file_info = FileInfo "string option" "string option" "int option" | NotADict

text \<open>The dictionaries \<open>upload_file_async\<close> returns, and what \<open>asyncio.gather\<close> with
  \<open>return_exceptions=True\<close> puts in the result list for one task.\<close>

datatype upload_result =
    Success string int bool
  | Failure "string option" string

datatype gathered = Dict upload_result | Exception string

text \<open>The three HTTP calls of the Create-Append-Flush pattern, each with the base URL it
  is sent to (the query string and the headers are fixed by the call site), and what
  comes back: a status with a body, or an exception raised by the HTTP client.\<close>

datatype request = Create string | Append string bytes | Flush string nat

datatype response = Response nat string | ClientError string

datatype local_file = Missing | Unreadable string | Contents bytes

datatype completed_entry = CompletedEntry string int int int

datatype failed_entry = FailedEntry "string option" string int int

text \<open>The progress dictionary. \<open>completed_files\<close> is a dictionary in insertion order:
  an association list updated with \<open>AList.update\<close>, which replaces the value of a key
  in place and appends a new key at the end, as a Python \<open>dict\<close> does.

  \<open>json.load\<close> returns whatever dictionary the file holds, and the production script is
  not the only writer of \<open>migration_progress_production.json\<close>:
  \<open>src/onelake_migrator_auto_refresh.py\<close> and \<open>src/onelake_complete_migration.py\<close>
  save under the same name a dictionary with the keys \<open>total_files\<close>,
  \<open>uploaded_files\<close>, \<open>failed_files\<close>, \<open>skipped_files\<close> and
  \<open>completed_files\<close> only. The production script assigns \<open>start_time\<close>,
  \<open>last_update\<close> and \<open>current_batch\<close> before it reads them, and of the values of
  \<open>completed_files\<close> it reads nothing, so the one key whose absence it can meet is
  \<open>failed_files_list\<close>: the field is \<open>None\<close> when the dictionary has no such
  key.\<close>

record progress =
  total_files :: int
  uploaded_files :: int
  failed_files :: int
  skipped_files :: int
  completed_files :: "(string \<times> completed_entry) list"
  failed_files_list :: "failed_entry list option"
  start_time :: "int option"
  last_update :: "int option"
  current_batch :: int

text \<open>A file of persisted state: absent, present with text that \<open>json.load\<close> rejects
  (empty or truncated), or present with a serialised value. A disk maps paths to files.\<close>

datatype 'a stored = NoFile | Malformed | Stored 'a

type_synonym 'a disk = "string \<Rightarrow> 'a stored"

datatype exn = JSONDecodeError | OSError | ZeroDivisionError | ValueError | KeyError

datatype write_fault = NoFault | OpenFails | DumpFails

datatype cache_file = CacheUnreadable | CacheWithoutFiles | CacheFiles "file_info list"

datatype dotenv = NoEnvFile | EnvUnreadable | EnvLines "string list"

datatype log_event =
    TokenLoaded | TokenNotFound | TokenLoadFailed
  | NoFilesToMigrate | CannotProceedWithoutToken
  | BatchException string
  | BatchComplete int int int
  | Summary int int int int
  | MigrationCompletedSuccessfully | MigrationFailed
  | SaveFailed

text \<open>
  What the run reads from outside: the lines of \<open>config/.env\<close>, the file cache,
  the local files, the answers of the OneLake endpoint, the clock and whether writing
  the progress file fails. The clock is read as an integer; no
  property below depends on its value. The endpoint answers a request the same way
  whenever it is asked during a run.
\<close>

record env =
  cfg :: config
  env_file :: dotenv
  file_cache :: cache_file
  local_files :: "string \<Rightarrow> local_file"
  server :: "request \<Rightarrow> response"
  now :: int
  fault :: write_fault

text \<open>
  The state of a run: the token and the progress dictionary of the migrator object, the
  disk, and three histories that the script does not keep but its environment sees: the
  requests sent, the messages logged, and the progress dictionaries written to the
  progress file by the saves that completed (the checkpoints), oldest first.
\<close>

record state =
  access_token :: "string option"
  progress :: progress
  disk :: "progress disk"
  sent :: "request list"
  log :: "log_event list"
  saved :: "progress list"

section \<open>The production migrator: operations\<close>

definition fresh_progress :: progress where
  "fresh_progress =
     \<lparr>total_files = 0, uploaded_files = 0, failed_files = 0, skipped_files = 0,
      completed_files = [], failed_files_list = Some [],
      start_time = None, last_update = None, current_batch = 0\<rparr>"

text \<open>\<open>load_progress\<close>: \<open>json.load\<close> inside \<open>if os.path.exists(...)\<close>, with no
  \<open>try\<close> around it and no check of what was loaded.\<close>

definition load_progress :: "config \<Rightarrow> progress disk \<Rightarrow> exn + progress" where
  "load_progress c d =
     (case d (PROGRESS_FILE c) of
        NoFile \<Rightarrow> Inr fresh_progress
      | Malformed \<Rightarrow> Inl JSONDecodeError
      | Stored p \<Rightarrow> Inr p)"

text \<open>The two effects of \<open>with open(path, 'w') as f: json.dump(value, f)\<close> on the disk:
  opening truncates the file, dumping fills it.\<close>

definition open_w :: "string \<Rightarrow> 'a disk \<Rightarrow> 'a disk" where
  "open_w file d = d(file := Malformed)"

definition json_dump :: "string \<Rightarrow> 'a \<Rightarrow> 'a disk \<Rightarrow> 'a disk" where
  "json_dump file v d = d(file := Stored v)"

text \<open>The disk states a save passes through, in order; a process killed during the save
  leaves the disk in one of them.\<close>

definition save_progress_steps :: "env \<Rightarrow> state \<Rightarrow> progress disk list" where
  "save_progress_steps e s =
     (let p = (progress s)\<lparr>last_update := Some (now e)\<rparr>;
          file = PROGRESS_FILE (cfg e);
          d1 = open_w file (disk s)
      in [d1, json_dump file p d1])"

definition save_progress :: "env \<Rightarrow> state \<Rightarrow> (exn + unit) \<times> state" where
  "save_progress e s =
     (let s1 = s\<lparr>progress := (progress s)\<lparr>last_update := Some (now e)\<rparr>\<rparr>;
          file = PROGRESS_FILE (cfg e)
      in case fault e of
           OpenFails \<Rightarrow> (Inl OSError, s1)
         | DumpFails \<Rightarrow> (Inl OSError, s1\<lparr>disk := open_w file (disk s1)\<rparr>)
         | NoFault \<Rightarrow>
             (Inr (), s1\<lparr>disk := json_dump file (progress s1) (open_w file (disk s1)),
                        saved := saved s1 @ [progress s1]\<rparr>))"

section \<open>Python built-ins the migrator uses\<close>

text \<open>\<open>str.strip()\<close> removes the ASCII whitespace characters at both ends;
  \<open>str.strip('/')\<close> removes slashes.\<close>

definition is_space :: "char \<Rightarrow> bool" where
  "is_space c = ((of_char c :: nat) \<in> {9, 10, 11, 12, 13, 28, 29, 30, 31, 32})"

definition strip_where :: "(char \<Rightarrow> bool) \<Rightarrow> string \<Rightarrow> string" where
  "strip_where P s = rev (dropWhile P (rev (dropWhile P s)))"

definition strip :: "string \<Rightarrow> string" where
  "strip s = strip_where is_space s"

definition startswith :: "string \<Rightarrow> string \<Rightarrow> bool" where
  "startswith s p = prefix p s"

text \<open>\<open>s.split('=', 1)[1]\<close>, for an \<open>s\<close> that contains \<open>=\<close>: what follows the first
  one.\<close>

definition after_first_eq :: "string \<Rightarrow> string" where
  "after_first_eq s = drop 1 (dropWhile (\<lambda>c. c \<noteq> CHR ''='') s)"

text \<open>\<open>str(n)\<close> for a status code.\<close>

fun str_nat :: "nat \<Rightarrow> string" where
  "str_nat n =
     (if n < 10 then [char_of (48 + n)] else str_nat (n div 10) @ [char_of (48 + n mod 10)])"

declare str_nat.simps [simp del]

text \<open>\<open>urllib.parse.quote(s, safe='/')\<close>: letters, digits, \<open>_.-~\<close> and \<open>/\<close> are
  kept, every other byte becomes \<open>%XX\<close> with upper-case hexadecimal digits.\<close>

definition hex_digit :: "nat \<Rightarrow> char" where
  "hex_digit n = (if n < 10 then char_of (48 + n) else char_of (55 + n))"

definition unreserved :: "char \<Rightarrow> bool" where
  "unreserved c =
     (let n = (of_char c :: nat) in
      (48 \<le> n \<and> n \<le> 57) \<or> (65 \<le> n \<and> n \<le> 90) \<or> (97 \<le> n \<and> n \<le> 122)
      \<or> c \<in> {CHR ''_'', CHR ''.'', CHR ''-'', CHR ''~'', CHR ''/''})"

definition quote :: "string \<Rightarrow> string" where
  "quote s =
     concat (map (\<lambda>c. if unreserved c then [c]
                       else [CHR ''%'', hex_digit ((of_char c :: nat) div 16),
                             hex_digit ((of_char c :: nat) mod 16)]) s)"

text \<open>The slice \<open>xs[i:j]\<close>: a negative index counts from the end, and both indices
  are clamped to the list.\<close>

definition py_slice :: "'a list \<Rightarrow> int \<Rightarrow> int \<Rightarrow> 'a list" where
  "py_slice xs i j =
     (let n = int (length xs);
          a = (if i < 0 then max (i + n) 0 else min i n);
          b = (if j < 0 then max (j + n) 0 else min j n)
      in take (nat (b - a)) (drop (nat a) xs))"

text \<open>\<open>not v\<close> for a value that is \<open>None\<close> or a string.\<close>

definition falsy :: "string option \<Rightarrow> bool" where
  "falsy v = (case v of None \<Rightarrow> True | Some s \<Rightarrow> s = [])"

text \<open>\<open>key in d\<close> for a dictionary.\<close>

definition key_in :: "'k \<Rightarrow> ('k \<times> 'v) list \<Rightarrow> bool" where
  "key_in k d = (map_of d k \<noteq> None)"

section \<open>The production migrator: one upload\<close>

text \<open>\<open>get_access_token\<close>: the first line of \<open>config/.env\<close> that starts, once
  stripped, with \<open>ACCESS_TOKEN=\<close> gives the token; any exception gives \<open>False\<close>.\<close>

fun find_token :: "string list \<Rightarrow> string option" where
  "find_token [] = None"
| "find_token (line # rest) =
     (if startswith (strip line) ''ACCESS_TOKEN='' then Some (after_first_eq (strip line))
      else find_token rest)"

definition get_access_token :: "env \<Rightarrow> state \<Rightarrow> bool \<times> state" where
  "get_access_token e s =
     (case env_file e of
        EnvUnreadable \<Rightarrow> (False, s\<lparr>log := log s @ [TokenLoadFailed]\<rparr>)
      | NoEnvFile \<Rightarrow> (False, s\<lparr>log := log s @ [TokenNotFound]\<rparr>)
      | EnvLines ls \<Rightarrow>
          (case find_token ls of
             Some t \<Rightarrow> (True, s\<lparr>access_token := Some t, log := log s @ [TokenLoaded]\<rparr>)
           | None \<Rightarrow> (False, s\<lparr>log := log s @ [TokenNotFound]\<rparr>)))"

text \<open>\<open>load_file_cache\<close>: the list under \<open>files\<close>, or the empty list when the cache
  cannot be read or has no such key.\<close>

definition load_file_cache :: "env \<Rightarrow> file_info list" where
  "load_file_cache e =
     (case file_cache e of
        CacheFiles fs \<Rightarrow> fs
      | CacheWithoutFiles \<Rightarrow> []
      | CacheUnreadable \<Rightarrow> [])"

definition build_onelake_url :: "config \<Rightarrow> string \<Rightarrow> string" where
  "build_onelake_url c relative_path =
     (let clean_path =
            strip_where (\<lambda>ch. ch = CHR ''/'')
              (map (\<lambda>ch. if ch = CHR 0x5C then CHR ''/'' else ch) relative_path);
          encoded_path = quote clean_path
      in ONELAKE_BASE_URL c @ ''/'' @ WORKSPACE_ID c @ ''/'' @ LAKEHOUSE_ID c @ ''/Files/''
         @ encoded_path)"

text \<open>
  The three steps of the Create-Append-Flush pattern, as both
  \<open>onelake_migrator_production.py\<close> and \<open>onelake_migrator_turbo_working.py\<close> write
  them: Create, then Append and Flush under \<open>if file_size > 0\<close>. A status outside the
  accepted ones raises an exception with the status and the body; the \<open>except\<close> of
  the caller turns it, and any exception of the HTTP client, into a failure dictionary
  with the message. The second component lists the requests sent, in order.
\<close>

definition create_append_flush :: "env \<Rightarrow> string \<Rightarrow> bytes \<Rightarrow> upload_result \<times> request list" where
  "create_append_flush e relative_path file_content =
     (let file_size = length file_content;
          base_url = build_onelake_url (cfg e) relative_path;
          create = Create base_url;
          append = Append base_url file_content;
          flush = Flush base_url file_size
      in case server e create of
           ClientError msg \<Rightarrow> (Failure (Some relative_path) msg, [create])
         | Response status error_text \<Rightarrow>
             if status \<notin> {200, 201}
             then (Failure (Some relative_path)
                     (''Create failed: HTTP '' @ str_nat status @ '' - '' @ error_text),
                   [create])
             else if file_size > 0 then
               (case server e append of
                  ClientError msg \<Rightarrow> (Failure (Some relative_path) msg, [create, append])
                | Response status error_text \<Rightarrow>
                    if status \<notin> {200, 202}
                    then (Failure (Some relative_path)
                            (''Append failed: HTTP '' @ str_nat status @ '' - '' @ error_text),
                          [create, append])
                    else
                      (case server e flush of
                         ClientError msg \<Rightarrow>
                           (Failure (Some relative_path) msg, [create, append, flush])
                       | Response status error_text \<Rightarrow>
                           if status \<notin> {200, 201}
                           then (Failure (Some relative_path)
                                   (''Flush failed: HTTP '' @ str_nat status @ '' - ''
                                    @ error_text),
                                 [create, append, flush])
                           else (Success relative_path (int file_size) False,
                                 [create, append, flush])))
             else (Success relative_path (int file_size) False, [create]))"

text \<open>The \<open>try\<close> block of the production \<open>upload_file_async\<close>: the existence
  check, the read, the three steps.\<close>

definition transfer :: "env \<Rightarrow> string \<Rightarrow> string \<Rightarrow> upload_result \<times> request list" where
  "transfer e local_path relative_path =
     (case local_files e local_path of
        Missing \<Rightarrow>
          (Failure (Some relative_path) (''Local file not found: '' @ local_path), [])
      | Unreadable msg \<Rightarrow> (Failure (Some relative_path) msg, [])
      | Contents file_content \<Rightarrow> create_append_flush e relative_path file_content)"

text \<open>\<open>upload_file_async\<close>: the reads of the dictionary (outside the \<open>try\<close>, so a
  list element that is no dictionary makes the coroutine raise), the check for missing
  paths, the check against \<open>completed_files\<close>, then the transfer.\<close>

definition upload_file_async :: "env \<Rightarrow> progress \<Rightarrow> file_info \<Rightarrow> gathered \<times> request list" where
  "upload_file_async e p file_info =
     (case file_info of
        NotADict \<Rightarrow> (Exception ''AttributeError'', [])
      | FileInfo local_path relative_path size_bytes \<Rightarrow>
          (let expected_size = (case size_bytes of None \<Rightarrow> 0 | Some n \<Rightarrow> n) in
           if falsy local_path \<or> falsy relative_path
           then (Dict (Failure relative_path ''Missing path information''), [])
           else
             (case (local_path, relative_path) of
                (Some lp, Some rp) \<Rightarrow>
                  if key_in rp (completed_files p)
                  then (Dict (Success rp expected_size True), [])
                  else (let (r, reqs) = transfer e lp rp in (Dict r, reqs))
              | _ \<Rightarrow> (Dict (Failure relative_path ''Missing path information''), []))))"

text \<open>\<open>upload_batch\<close>: one task per element, gathered with \<open>return_exceptions=True\<close>,
  so the result list has one entry per element, in the order of the batch. The tasks
  only read the progress dictionary; it is updated after the gather.\<close>

definition upload_batch :: "env \<Rightarrow> progress \<Rightarrow> file_info list \<Rightarrow> (gathered \<times> request list) list" where
  "upload_batch e p file_batch = map (upload_file_async e p) file_batch"

section \<open>The production migrator: the batch loop\<close>

text \<open>
  The body of \<open>for result in results\<close>, on the progress dictionary and the three
  counters of the batch (success, failed, skipped). A failure dictionary is counted and
  then appended to \<open>self.progress["failed_files_list"]\<close>, which raises
  \<open>KeyError\<close> when the loaded dictionary has no such key. A result that is no
  dictionary is an exception object: it is counted in \<open>failed_files\<close> and logged,
  and that branch does not touch \<open>failed_files_list\<close>.
\<close>

definition record_result ::
  "env \<Rightarrow> int \<Rightarrow> (int \<times> int \<times> int) \<times> state \<Rightarrow> gathered \<Rightarrow>
     (exn + unit) \<times> (int \<times> int \<times> int) \<times> state" where
  "record_result e batch_num acc result =
     (case acc of ((batch_success, batch_failed, batch_skipped), s) \<Rightarrow>
        (let p = progress s in
         case result of
           Dict (Success rpath rsize skipped) \<Rightarrow>
             if skipped
             then (Inr (), (batch_success, batch_failed, batch_skipped + 1),
                   s\<lparr>progress := p\<lparr>skipped_files := skipped_files p + 1\<rparr>\<rparr>)
             else (Inr (), (batch_success + 1, batch_failed, batch_skipped),
                   s\<lparr>progress := p\<lparr>uploaded_files := uploaded_files p + 1,
                        completed_files :=
                          AList.update rpath
                            (CompletedEntry ''completed'' rsize (now e) (batch_num + 1))
                            (completed_files p)\<rparr>\<rparr>)
         | Dict (Failure rpath rerror) \<Rightarrow>
             (case failed_files_list p of
                None \<Rightarrow>
                  (Inl KeyError, (batch_success, batch_failed + 1, batch_skipped),
                   s\<lparr>progress := p\<lparr>failed_files := failed_files p + 1\<rparr>\<rparr>)
              | Some fl \<Rightarrow>
                  (Inr (), (batch_success, batch_failed + 1, batch_skipped),
                   s\<lparr>progress := p\<lparr>failed_files := failed_files p + 1,
                        failed_files_list :=
                          Some (fl @ [FailedEntry rpath rerror (now e) (batch_num + 1)])\<rparr>\<rparr>))
         | Exception msg \<Rightarrow>
             (Inr (), (batch_success, batch_failed + 1, batch_skipped),
              s\<lparr>progress := p\<lparr>failed_files := failed_files p + 1\<rparr>,
                log := log s @ [BatchException msg]\<rparr>)))"

text \<open>The loop \<open>for result in results\<close>: it stops at the first result whose
  processing raises.\<close>

fun record_results ::
  "env \<Rightarrow> int \<Rightarrow> (int \<times> int \<times> int) \<times> state \<Rightarrow> gathered list \<Rightarrow>
     (exn + unit) \<times> (int \<times> int \<times> int) \<times> state" where
  "record_results e batch_num acc [] = (Inr (), acc)"
| "record_results e batch_num acc (result # rest) =
     (case record_result e batch_num acc result of
        (Inl x, acc') \<Rightarrow> (Inl x, acc')
      | (Inr u, acc') \<Rightarrow> record_results e batch_num acc' rest)"

text \<open>The slice of the file list that batch \<open>batch_num\<close> takes.\<close>

definition batch_of :: "config \<Rightarrow> file_info list \<Rightarrow> int \<Rightarrow> file_info list" where
  "batch_of c files batch_num =
     (let start_idx = batch_num * BATCH_SIZE c;
          end_idx = min (start_idx + BATCH_SIZE c) (int (length files))
      in py_slice files start_idx end_idx)"

text \<open>One iteration of \<open>for batch_num in range(start_batch, end_batch)\<close>, up to the
  save: the slice, the uploads, and the results applied in the order of the batch.\<close>

definition record_batch ::
  "env \<Rightarrow> file_info list \<Rightarrow> int \<Rightarrow> state \<Rightarrow> (exn + unit) \<times> (int \<times> int \<times> int) \<times> state" where
  "record_batch e files batch_num s =
     (let batch = batch_of (cfg e) files batch_num;
          s1 = s\<lparr>progress := (progress s)\<lparr>current_batch := batch_num + 1\<rparr>\<rparr>;
          outs = upload_batch e (progress s1) batch;
          s2 = s1\<lparr>sent := sent s1 @ concat (map snd outs)\<rparr>
      in record_results e batch_num ((0, 0, 0), s2) (map fst outs))"

text \<open>The whole iteration. The progress is saved after the results are applied; an
  exception of the results loop or of the save leaves the loop over the batches (the
  \<open>try\<close> has a \<open>finally\<close> and no \<open>except\<close>).\<close>

definition process_batch :: "env \<Rightarrow> file_info list \<Rightarrow> int \<Rightarrow> state \<Rightarrow> (exn + unit) \<times> state" where
  "process_batch e files batch_num s =
     (case record_batch e files batch_num s of
        (Inl x, counts, s3) \<Rightarrow> (Inl x, s3)
      | (Inr u, counts, s3) \<Rightarrow>
          (let (r, s4) = save_progress e s3
           in case r of
                Inl x \<Rightarrow> (Inl x, s4)
              | Inr u \<Rightarrow>
                  (case counts of (batch_success, batch_failed, batch_skipped) \<Rightarrow>
                     (Inr (), s4\<lparr>log := log s4 @ [BatchComplete batch_success batch_failed
                                                       batch_skipped]\<rparr>))))"

fun run_batches :: "env \<Rightarrow> file_info list \<Rightarrow> int list \<Rightarrow> state \<Rightarrow> (exn + unit) \<times> state" where
  "run_batches e files [] s = (Inr (), s)"
| "run_batches e files (batch_num # rest) s =
     (case process_batch e files batch_num s of
        (Inl x, s') \<Rightarrow> (Inl x, s')
      | (Inr u, s') \<Rightarrow> run_batches e files rest s')"

text \<open>The batch numbers the loop visits: \<open>range(start_batch, end_batch)\<close>, with
  \<open>end_batch\<close> cut by \<open>max_batches\<close> when that is neither \<open>None\<close> nor \<open>0\<close>.\<close>

definition batch_range :: "config \<Rightarrow> file_info list \<Rightarrow> int \<Rightarrow> int option \<Rightarrow> int list" where
  "batch_range c files start_batch max_batches =
     (let total_batches = (int (length files) + BATCH_SIZE c - 1) div BATCH_SIZE c;
          end_batch = (case max_batches of
                         None \<Rightarrow> total_batches
                       | Some m \<Rightarrow> if m = 0 then total_batches
                                   else min total_batches (start_batch + m))
      in [start_batch .. end_batch - 1])"

text \<open>\<open>migrate_files\<close>. It returns \<open>False\<close> without a token or without files, and
  \<open>True\<close> after the loop, whatever the results of the uploads were.\<close>

definition migrate_files :: "env \<Rightarrow> int \<Rightarrow> int option \<Rightarrow> state \<Rightarrow> (exn + bool) \<times> state" where
  "migrate_files e start_batch max_batches s =
     (let (ok, s1) = get_access_token e s in
      if \<not> ok then (Inr False, s1\<lparr>log := log s1 @ [CannotProceedWithoutToken]\<rparr>)
      else
        (let files = load_file_cache e in
         if files = [] then (Inr False, s1\<lparr>log := log s1 @ [NoFilesToMigrate]\<rparr>)
         else
           (let s2 = s1\<lparr>progress := (progress s1)\<lparr>total_files := int (length files),
                                                    start_time := Some (now e)\<rparr>\<rparr>
            in if BATCH_SIZE (cfg e) = 0 then (Inl ZeroDivisionError, s2)
               else
                 (case run_batches e files
                         (batch_range (cfg e) files start_batch max_batches) s2 of
                    (Inl x, s3) \<Rightarrow> (Inl x, s3)
                  | (Inr u, s3) \<Rightarrow>
                      (Inr True,
                       s3\<lparr>log := log s3 @
                            [Summary (total_files (progress s3)) (uploaded_files (progress s3))
                               (skipped_files (progress s3)) (failed_files (progress s3))]\<rparr>)))))"

text \<open>
  \<open>main\<close>, after \<open>argparse\<close>. The constructor loads the progress; \<open>main\<close> logs one
  of two messages and returns. It never calls \<open>sys.exit\<close>: the exit status of the
  process is 0 when \<open>main\<close> returns and 1 when an exception escapes.
\<close>

record args =
  start_batch :: int
  max_batches :: "int option"
  test_run :: bool

definition main :: "env \<Rightarrow> args \<Rightarrow> progress disk \<Rightarrow> nat \<times> state option" where
  "main e a d =
     (case load_progress (cfg e) d of
        Inl x \<Rightarrow> (1, None)
      | Inr p \<Rightarrow>
          (let migrator = \<lparr>access_token = None, progress = p, disk = d, sent = [], log = [],
                           saved = []\<rparr>;
               (success, s) =
                 (if test_run a then migrate_files e 0 (Some 5) migrator
                  else migrate_files e (start_batch a) (max_batches a) migrator)
           in case success of
                Inl x \<Rightarrow> (1, Some s)
              | Inr ok \<Rightarrow>
                  if ok then (0, Some (s\<lparr>log := log s @ [MigrationCompletedSuccessfully]\<rparr>))
                  else (0, Some (s\<lparr>log := log s @ [MigrationFailed]\<rparr>))))"

section \<open>The working migrator\<close>

text \<open>
  \<open>src/onelake_migrator_turbo_working.py\<close>. Its \<open>upload_file_async\<close> takes the
  local path and the OneLake path, has no check against the progress, and opens the file
  inside the \<open>try\<close>: a missing file is an exception of \<open>open\<close>, caught like the
  others. Its loop cuts the file list with \<open>range(0, len(file_list), BATCH_SIZE)\<close>.
\<close>

definition working_config :: config where
  "working_config =
     \<lparr>ONELAKE_BASE_URL = ''https://onelake.dfs.fabric.microsoft.com'',
      WORKSPACE_ID = ''abc64232-25a2-499d-90ae-9fe5939ae437'',
      LAKEHOUSE_ID = ''a622b04f-1094-4f9b-86fd-5105f4778f76'',
      BATCH_SIZE = 50,
      PROGRESS_FILE = ''migration_progress_working.json''\<rparr>"

definition working_upload_file_async ::
  "env \<Rightarrow> string \<Rightarrow> string \<Rightarrow> upload_result \<times> request list" where
  "working_upload_file_async e file_path onelake_path =
     (case local_files e file_path of
        Missing \<Rightarrow>
          (Failure (Some onelake_path)
             (''[Errno 2] No such file or directory: '' @ [CHR 0x27] @ file_path @ [CHR 0x27]),
           [])
      | Unreadable msg \<Rightarrow> (Failure (Some onelake_path) msg, [])
      | Contents file_content \<Rightarrow> create_append_flush e onelake_path file_content)"

text \<open>\<open>range(0, n, step)\<close> for a step that is not zero, and the batches
  \<open>file_list[i:i + BATCH_SIZE]\<close> of the loop; \<open>range\<close> raises \<open>ValueError\<close> on a
  zero step.\<close>

definition range_step :: "int \<Rightarrow> int \<Rightarrow> int list" where
  "range_step n step = map (\<lambda>k. int k * step) [0 ..< nat ((n + step - 1) div step)]"

definition working_batches :: "config \<Rightarrow> 'a list \<Rightarrow> exn + 'a list list" where
  "working_batches c file_list =
     (if BATCH_SIZE c = 0 then Inl ValueError
      else Inr (map (\<lambda>i. py_slice file_list i (i + BATCH_SIZE c))
                  (range_step (int (length file_list)) (BATCH_SIZE c))))"

section \<open>The optimized migrator's progress file\<close>

text \<open>
  \<open>src/fabric/onelake_migrator_turbo_fixed.py\<close> keeps a smaller dictionary: the list
  of completed files, the list of failed ones (file and error) and the statistics. Its
  \<open>load_progress\<close> wraps \<open>json.load\<close> in \<open>try\<close> with a bare \<open>except: pass\<close>
  and falls through to \<open>init_progress()\<close>.
\<close>

datatype optimized_progress =
  OptimizedProgress "string list" "(string \<times> string) list" "(string \<times> int) list"

definition init_progress :: optimized_progress where
  "init_progress = OptimizedProgress [] [] []"

definition optimized_load_progress :: "string \<Rightarrow> optimized_progress disk \<Rightarrow> optimized_progress" where
  "optimized_load_progress migration_log d =
     (case d migration_log of
        NoFile \<Rightarrow> init_progress
      | Malformed \<Rightarrow> init_progress
      | Stored p \<Rightarrow> p)"

section \<open>The auto-refresh migrator's save\<close>

text \<open>
  \<open>src/onelake_migrator_auto_refresh.py\<close> writes the same file in the same way, inside
  \<open>try\<close>, and logs \<open>Failed to save progress\<close> on any exception. Its progress
  dictionary has the counters and \<open>completed_files\<close> of the production one and is
  kept here in the same record.
\<close>

definition refresh_save_progress :: "env \<Rightarrow> state \<Rightarrow> state" where
  "refresh_save_progress e s =
     (let file = PROGRESS_FILE (cfg e)
      in case fault e of
           OpenFails \<Rightarrow> s\<lparr>log := log s @ [SaveFailed]\<rparr>
         | DumpFails \<Rightarrow> s\<lparr>disk := open_w file (disk s), log := log s @ [SaveFailed]\<rparr>
         | NoFault \<Rightarrow> s\<lparr>disk := json_dump file (progress s) (open_w file (disk s)),
                          saved := saved s @ [progress s]\<rparr>)"

section \<open>The turbo downloader\<close>

text \<open>
  \<open>src/sharepoint/dll_pdf_fabric_turbo.py\<close>, the SharePoint side of the migration:
  \<open>download_all_files_turbo\<close> with its worker, \<open>download_file_safely_turbo\<close> and
  \<open>clear_cache\<close>. A listed file has a path, a download URL and possibly an id. A
  result dictionary is a success (file, local path, whether it was skipped) or a failure
  (file, error); \<open>results\<close> keeps the two lists, and the progress file keeps the
  index of the last file processed with a copy of \<open>results\<close>.
\<close>

datatype remote_file = RemoteFile string string "string option"

datatype download_result = DownloadSuccess string string bool | DownloadFailed string string

record download_results =
  success :: "download_result list"
  failed :: "download_result list"

record turbo_progress =
  last_processed_index :: int
  results :: download_results
  timestamp :: int

text \<open>What one \<open>session.get\<close> with the streamed write does: the file is written; the
  server answers with an error status (\<open>raise_for_status\<close>); the request fails; or
  the stream breaks after the local file has been opened for writing.\<close>

datatype http_outcome = Served | HTTPError nat string | RequestError string | StreamError string

text \<open>The outside of the downloader: the answer to the request for a URL (told apart by
  whether the token was refreshed and by the number of the attempt), the fresh download
  URL of a file id, the drive id, whether a new token can be had, the clock and the
  fault of writing the progress file.\<close>

record turbo_env =
  http_get :: "string \<Rightarrow> bool \<Rightarrow> nat \<Rightarrow> http_outcome"
  get_fresh_download_url :: "string \<Rightarrow> string option"
  drive_id :: "string option"
  get_graph_token_ok :: bool
  turbo_now :: int
  turbo_fault :: write_fault

text \<open>The state: the progress files on disk and the set of local paths that exist.\<close>

record turbo_state =
  turbo_disk :: "turbo_progress disk"
  local_exists :: "string \<Rightarrow> bool"

definition path_join :: "string \<Rightarrow> string \<Rightarrow> string" where
  "path_join dir name = dir @ ''/'' @ name"

text \<open>The \<open>for attempt in range(max_retries)\<close> loop of
  \<open>download_file_safely_turbo\<close>, by recursion on the attempts that are left.\<close>

fun attempts ::
  "turbo_env \<Rightarrow> bool \<Rightarrow> string \<Rightarrow> string option \<Rightarrow> string \<Rightarrow> string \<Rightarrow> nat \<Rightarrow> nat
   \<Rightarrow> (string \<Rightarrow> bool) \<Rightarrow> download_result \<times> (string \<Rightarrow> bool)" where
  "attempts e refreshed file_path file_id local_file_path download_url attempt 0 ex =
     (DownloadFailed file_path ''Max retries exceeded'', ex)"
| "attempts e refreshed file_path file_id local_file_path download_url attempt (Suc left) ex =
     (case http_get e download_url refreshed attempt of
        Served \<Rightarrow>
          (DownloadSuccess file_path local_file_path False, ex(local_file_path := True))
      | HTTPError status msg \<Rightarrow>
          (case (if status = 401 \<and> \<not> falsy (drive_id e) \<and> \<not> falsy file_id \<and> 0 < left
                 then (case file_id of
                         Some i \<Rightarrow> (case get_fresh_download_url e i of
                                      Some u \<Rightarrow> if u = [] then None else Some u
                                    | None \<Rightarrow> None)
                       | None \<Rightarrow> None)
                 else None) of
             Some fresh_url \<Rightarrow>
               attempts e refreshed file_path file_id local_file_path fresh_url
                 (Suc attempt) left ex
           | None \<Rightarrow>
               if left = 0 then (DownloadFailed file_path msg, ex)
               else attempts e refreshed file_path file_id local_file_path download_url
                      (Suc attempt) left ex)
      | RequestError msg \<Rightarrow>
          if left = 0 then (DownloadFailed file_path msg, ex)
          else attempts e refreshed file_path file_id local_file_path download_url
                 (Suc attempt) left ex
      | StreamError msg \<Rightarrow>
          if left = 0 then (DownloadFailed file_path msg, ex(local_file_path := True))
          else attempts e refreshed file_path file_id local_file_path download_url
                 (Suc attempt) left (ex(local_file_path := True)))"

definition download_file_safely_turbo ::
  "turbo_env \<Rightarrow> bool \<Rightarrow> remote_file \<Rightarrow> string \<Rightarrow> nat \<Rightarrow> (string \<Rightarrow> bool)
   \<Rightarrow> download_result \<times> (string \<Rightarrow> bool)" where
  "download_file_safely_turbo e refreshed file_info local_base_path max_retries ex =
     (case file_info of RemoteFile file_path download_url file_id \<Rightarrow>
        (let local_file_path = path_join local_base_path file_path in
         if ex local_file_path
         then (DownloadSuccess file_path local_file_path True, ex)
         else attempts e refreshed file_path file_id local_file_path download_url 0
                max_retries ex))"

text \<open>The counters and the results that the workers share under the lock.\<close>

record worker_state =
  shared :: turbo_state
  worker_results :: download_results
  completed_count :: nat
  total_processed :: nat

text \<open>
  \<open>download_worker\<close> for one indexed file: the download, one more try with a new token
  when the error mentions 401, then the update under the lock, with a save of the
  progress every 1000 files. An exception of that save is caught by the worker.
\<close>

definition download_worker ::
  "turbo_env \<Rightarrow> string \<Rightarrow> string \<Rightarrow> worker_state \<Rightarrow> int \<times> remote_file \<Rightarrow> worker_state" where
  "download_worker e local_download_path progress_file w file_data =
     (case file_data of (index, file_info) \<Rightarrow>
        (let (r1, ex1) =
               download_file_safely_turbo e False file_info local_download_path 2
                 (local_exists (shared w));
             (result, ex2) =
               (case r1 of
                  DownloadFailed f err \<Rightarrow>
                    if str_in ''401'' err \<and> get_graph_token_ok e
                    then download_file_safely_turbo e True file_info local_download_path 1 ex1
                    else (r1, ex1)
                | DownloadSuccess f l sk \<Rightarrow> (r1, ex1));
             total = Suc (total_processed w);
             res = (case result of
                      DownloadSuccess f l sk \<Rightarrow>
                        (worker_results w)\<lparr>success := success (worker_results w) @ [result]\<rparr>
                    | DownloadFailed f err \<Rightarrow>
                        (worker_results w)\<lparr>failed := failed (worker_results w) @ [result]\<rparr>);
             count = (case result of
                        DownloadSuccess f l sk \<Rightarrow>
                          if sk then completed_count w else Suc (completed_count w)
                      | DownloadFailed f err \<Rightarrow> completed_count w);
             d = turbo_disk (shared w);
             d' = (if total mod 1000 = 0
                   then (case turbo_fault e of
                           NoFault \<Rightarrow>
                             json_dump progress_file
                               \<lparr>last_processed_index = index, results = res,
                                  timestamp = turbo_now e\<rparr>
                               (open_w progress_file d)
                         | DumpFails \<Rightarrow> open_w progress_file d
                         | OpenFails \<Rightarrow> d)
                   else d)
         in \<lparr>shared = \<lparr>turbo_disk = d', local_exists = ex2\<rparr>, worker_results = res,
              completed_count = count, total_processed = total\<rparr>))"

text \<open>The filter before the downloads: the files from \<open>start_index\<close> on, with their
  indices; a file that is already on the local disk becomes a skipped success.\<close>

fun filter_remaining ::
  "string \<Rightarrow> (string \<Rightarrow> bool) \<Rightarrow> (int \<times> remote_file) list
   \<Rightarrow> (int \<times> remote_file) list \<times> download_result list" where
  "filter_remaining local_download_path ex [] = ([], [])"
| "filter_remaining local_download_path ex ((i, file_info) # rest) =
     (case filter_remaining local_download_path ex rest of (remaining, skipped) \<Rightarrow>
        (case file_info of RemoteFile file_path download_url file_id \<Rightarrow>
           if \<not> ex (path_join local_download_path file_path)
           then ((i, file_info) # remaining, skipped)
           else (remaining,
                 DownloadSuccess file_path (path_join local_download_path file_path) True
                 # skipped)))"

definition enumerate_from :: "int \<Rightarrow> 'a list \<Rightarrow> (int \<times> 'a) list" where
  "enumerate_from n xs = zip (map (\<lambda>k. n + int k) [0 ..< length xs]) xs"

text \<open>
  \<open>download_all_files_turbo\<close>. The workers of the thread pool update the shared state
  one at a time, under the lock; the model lets them finish in the order of the list.
  At the end the progress file is removed when it exists and no result failed
  (\<open># Clean up progress file on completion\<close>). The interrupt handler is not modelled.
\<close>

definition download_all_files_turbo ::
  "turbo_env \<Rightarrow> remote_file list \<Rightarrow> string \<Rightarrow> turbo_state \<Rightarrow> download_results \<times> turbo_state" where
  "download_all_files_turbo e file_list local_download_path st =
     (let progress_file = path_join local_download_path ''download_progress_turbo.json'';
          (results0, start_index) =
            (case turbo_disk st progress_file of
               Stored progress_data \<Rightarrow>
                 (results progress_data, last_processed_index progress_data + 1)
             | Malformed \<Rightarrow> (\<lparr>success = [], failed = []\<rparr>, 0)
             | NoFile \<Rightarrow> (\<lparr>success = [], failed = []\<rparr>, 0));
          (remaining_files, skipped) =
            filter_remaining local_download_path (local_exists st)
              (enumerate_from start_index
                 (py_slice file_list start_index (int (length file_list))));
          results1 = results0\<lparr>success := success results0 @ skipped\<rparr>;
          w0 = \<lparr>shared = st, worker_results = results1,
                completed_count =
                  length (filter (\<lambda>r. case r of DownloadSuccess f l sk \<Rightarrow> \<not> sk
                                        | DownloadFailed f err \<Rightarrow> True)
                            (success results1)),
                total_processed = length (success results1)\<rparr>;
          w = foldl (download_worker e local_download_path progress_file) w0 remaining_files;
          d = turbo_disk (shared w);
          d' = (if d progress_file \<noteq> NoFile \<and> length (failed (worker_results w)) = 0
                then d(progress_file := NoFile) else d)
      in (worker_results w, (shared w)\<lparr>turbo_disk := d'\<rparr>))"

text \<open>\<open>clear_cache\<close>, run by \<open>--clear-cache\<close>: it removes the file list cache and
  \<open>download_progress.json\<close>.\<close>

definition clear_cache :: "string \<Rightarrow> 'a disk \<Rightarrow> 'a disk" where
  "clear_cache local_path d =
     d(path_join local_path ''file_list_cache.json'' := NoFile,
       path_join local_path ''download_progress.json'' := NoFile)"

section \<open>Notions used to state the properties\<close>

text \<open>A request is accepted when the endpoint answers with a status the script takes
  as success: 200 or 202 for Append, 200 or 201 for Create and Flush.\<close>

definition accepted :: "env \<Rightarrow> request \<Rightarrow> bool" where
  "accepted e r =
     (case server e r of
        ClientError msg \<Rightarrow> False
      | Response status body \<Rightarrow>
          (case r of Append u d \<Rightarrow> status \<in> {200, 202} | Create u \<Rightarrow> status \<in> {200, 201}
           | Flush u n \<Rightarrow> status \<in> {200, 201}))"

text \<open>
  The partition the specification describes: consecutive batches of exactly \<open>b\<close>
  items, except a possibly smaller last one. And its pending list: the items whose key
  is not in the completed map, in the order of the item list.
\<close>

definition chunks :: "nat \<Rightarrow> 'a list \<Rightarrow> 'a list list" where
  "chunks b xs = map (\<lambda>k. take b (drop (k * b) xs)) [0 ..< (length xs + b - 1) div b]"

definition relative_path_of :: "file_info \<Rightarrow> string option" where
  "relative_path_of i = (case i of FileInfo lp rp sz \<Rightarrow> rp | NotADict \<Rightarrow> None)"

definition pending :: "progress \<Rightarrow> file_info list \<Rightarrow> file_info list" where
  "pending p items =
     filter (\<lambda>i. case relative_path_of i of
                   Some k \<Rightarrow> \<not> key_in k (completed_files p)
                 | None \<Rightarrow> True) items"

text \<open>
  An example for the turbo downloader: two listed files, \<open>a.pdf\<close> already on the
  local disk and recorded by an earlier, interrupted run whose progress file is still
  there, and \<open>b.pdf\<close> yet to download. The server serves \<open>u/ok\<close> and answers 404
  otherwise.
\<close>

definition example_turbo_env :: turbo_env where
  "example_turbo_env =
     \<lparr>http_get = (\<lambda>u r a. if u = ''u/ok'' then Served else HTTPError 404 ''404 Client Error''),
      get_fresh_download_url = (\<lambda>i. None),
      drive_id = Some ''drive'',
      get_graph_token_ok = True,
      turbo_now = 1000,
      turbo_fault = NoFault\<rparr>"

definition example_turbo_state :: turbo_state where
  "example_turbo_state =
     \<lparr>turbo_disk =
        (\<lambda>f. if f = ''dl/download_progress_turbo.json''
             then Stored \<lparr>last_processed_index = 0,
                          results = \<lparr>success = [DownloadSuccess ''a.pdf'' ''dl/a.pdf'' False],
                                     failed = []\<rparr>,
                          timestamp = 900\<rparr>
             else NoFile),
      local_exists = (\<lambda>p. p = ''dl/a.pdf'')\<rparr>"

definition example_turbo_files :: "remote_file list" where
  "example_turbo_files = [RemoteFile ''a.pdf'' ''u/ok'' None, RemoteFile ''b.pdf'' ''u/ok'' None]"

definition example_turbo_files_bad :: "remote_file list" where
  "example_turbo_files_bad =
     [RemoteFile ''a.pdf'' ''u/ok'' None, RemoteFile ''c.pdf'' ''u/gone'' None]"

text \<open>The sum of the conservation invariant: the number of completed keys, the number
  of failure records and the skipped counter.\<close>

definition tally :: "progress \<Rightarrow> int" where
  "tally p = int (length (completed_files p)) +
             (case failed_files_list p of None \<Rightarrow> 0 | Some fl \<Rightarrow> int (length fl))
             + skipped_files p"

text \<open>The keys of the completed map. An item uploads well when both its paths are
  present and its transfer, taken alone, succeeds.\<close>

definition completed_keys :: "progress \<Rightarrow> string set" where
  "completed_keys p = fst ` set (completed_files p)"

definition uploads_ok :: "env \<Rightarrow> file_info \<Rightarrow> bool" where
  "uploads_ok e i =
     (case i of
        FileInfo (Some lp) (Some rp) sz \<Rightarrow>
          lp \<noteq> [] \<and> rp \<noteq> []
          \<and> (case fst (transfer e lp rp) of Success k n sk \<Rightarrow> True | Failure k m \<Rightarrow> False)
      | _ \<Rightarrow> False)"


text \<open>
  An environment for the examples: batches of two, a token, five cached files \<open>a\<close> to
  \<open>e\<close> of which \<open>c\<close> is missing on the local disk and \<open>e\<close> is empty, and an endpoint
  that accepts every request.
\<close>

definition example_files :: "file_info list" where
  "example_files =
     [FileInfo (Some ''/data/a'') (Some ''a'') (Some 3),
      FileInfo (Some ''/data/b'') (Some ''b'') (Some 1),
      FileInfo (Some ''/data/c'') (Some ''c'') (Some 2),
      FileInfo (Some ''/data/d'') (Some ''d'') None,
      FileInfo (Some ''/data/e'') (Some ''e'') (Some 0)]"

definition example_env :: env where
  "example_env =
     \<lparr>cfg = \<lparr>ONELAKE_BASE_URL = ''https://onelake'', WORKSPACE_ID = ''ws'',
             LAKEHOUSE_ID = ''lh'', BATCH_SIZE = 2, PROGRESS_FILE = ''progress.json''\<rparr>,
      env_file = EnvLines [''# token'', ''ACCESS_TOKEN=secret''],
      file_cache = CacheFiles example_files,
      local_files = (\<lambda>p. if p = ''/data/a'' then Contents [1, 2, 3]
                         else if p = ''/data/b'' then Contents [7]
                         else if p = ''/data/d'' then Contents [4, 5]
                         else if p = ''/data/e'' then Contents []
                         else Missing),
      server = (\<lambda>r. case r of Append u d \<Rightarrow> Response 202 [] | Create u \<Rightarrow> Response 201 []
                     | Flush u n \<Rightarrow> Response 200 []),
      now = 1000,
      fault = NoFault\<rparr>"


definition example_args :: args where
  "example_args = \<lparr>start_batch = 0, max_batches = None, test_run = False\<rparr>"

definition example_state :: state where
  "example_state =
     \<lparr>access_token = None, progress = fresh_progress, disk = (\<lambda>f. NoFile), sent = [],
      log = [], saved = []\<rparr>"

text \<open>The progress dictionary the auto-refresh migrator leaves in the same progress file
  after a run that completed \<open>a\<close>: it has no \<open>failed_files_list\<close>.\<close>

definition example_refresh_progress :: progress where
  "example_refresh_progress =
     \<lparr>total_files = 5, uploaded_files = 1, failed_files = 0, skipped_files = 0,
      completed_files = [(''a'', CompletedEntry ''completed'' 3 1000 1)],
      failed_files_list = None,
      start_time = None, last_update = None, current_batch = 0\<rparr>"

text \<open>The requests a list of items sends when each is uploaded against the progress
  \<open>p\<close>, in the order of the list.\<close>

definition requests_of :: "env \<Rightarrow> progress \<Rightarrow> file_info list \<Rightarrow> request list" where
  "requests_of e p items = concat (map (\<lambda>i. snd (upload_file_async e p i)) items)"


section \<open>Properties of the error classifiers\<close>

text \<open>
  Claim C7, as amended. The classifier of the log analyzer checks authentication,
  not-found, timeout, connection, rate-limit and server-error in that order, falls back
  to \<open>Other\<close>, and returns no other kind. The classifier of the dashboard monitor
  checks authentication, not-found, timeout (also \<open>timed out\<close>), connection, then one
  more kind, \<open>Permission\<close> (\<open>permission\<close> or \<open>access\<close>), then rate-limit (also
  \<open>rate limit\<close>) and server-error (also \<open>502\<close>), in that order, and falls back to
  \<open>Other\<close>: each kind is returned exactly when its patterns match and those of all
  the kinds before it do not, so \<open>Permission\<close> is checked after connection and before
  rate-limit, and the results lie in the set enlarged by \<open>Permission\<close>. In both, every
  message that contains \<open>401\<close> is classified as \<open>Authentication\<close>, whatever else it
  contains.
\<close>

theorem classify_error_priority:
  "classify_error m \<in> error_kinds
   \<and> ((str_in ''401'' m \<or> str_in ''unauthorized'' (lower m))
        \<longrightarrow> classify_error m = ''Authentication'')
   \<and> (\<not> (str_in ''401'' m \<or> str_in ''unauthorized'' (lower m))
        \<and> (str_in ''404'' m \<or> str_in ''not found'' (lower m))
        \<longrightarrow> classify_error m = ''File Not Found'')
   \<and> (\<not> (str_in ''401'' m \<or> str_in ''unauthorized'' (lower m))
        \<and> \<not> (str_in ''404'' m \<or> str_in ''not found'' (lower m))
        \<and> str_in ''timeout'' (lower m)
        \<longrightarrow> classify_error m = ''Timeout'')
   \<and> (\<not> (str_in ''401'' m \<or> str_in ''unauthorized'' (lower m))
        \<and> \<not> (str_in ''404'' m \<or> str_in ''not found'' (lower m))
        \<and> \<not> str_in ''timeout'' (lower m)
        \<and> str_in ''connection'' (lower m)
        \<longrightarrow> classify_error m = ''Connection'')
   \<and> (\<not> (str_in ''401'' m \<or> str_in ''unauthorized'' (lower m))
        \<and> \<not> (str_in ''404'' m \<or> str_in ''not found'' (lower m))
        \<and> \<not> str_in ''timeout'' (lower m)
        \<and> \<not> str_in ''connection'' (lower m)
        \<and> str_in ''429'' m
        \<longrightarrow> classify_error m = ''Rate Limit'')
   \<and> (\<not> (str_in ''401'' m \<or> str_in ''unauthorized'' (lower m))
        \<and> \<not> (str_in ''404'' m \<or> str_in ''not found'' (lower m))
        \<and> \<not> str_in ''timeout'' (lower m)
        \<and> \<not> str_in ''connection'' (lower m)
        \<and> \<not> str_in ''429'' m
        \<and> (str_in ''500'' m \<or> str_in ''503'' m)
        \<longrightarrow> classify_error m = ''Server Error'')
   \<and> (\<not> (str_in ''401'' m \<or> str_in ''unauthorized'' (lower m))
        \<and> \<not> (str_in ''404'' m \<or> str_in ''not found'' (lower m))
        \<and> \<not> str_in ''timeout'' (lower m)
        \<and> \<not> str_in ''connection'' (lower m)
        \<and> \<not> str_in ''429'' m
        \<and> \<not> (str_in ''500'' m \<or> str_in ''503'' m)
        \<longrightarrow> classify_error m = ''Other'')
   \<and> dashboard_classify_error m \<in> insert ''Permission'' error_kinds
   \<and> (str_in ''401'' m \<longrightarrow> dashboard_classify_error m = ''Authentication'')
   \<and> ((str_in ''401'' m \<or> str_in ''unauthorized'' (lower m))
        \<longrightarrow> dashboard_classify_error m = ''Authentication'')
   \<and> (\<not> (str_in ''401'' m \<or> str_in ''unauthorized'' (lower m))
        \<and> (str_in ''404'' m \<or> str_in ''not found'' (lower m))
        \<longrightarrow> dashboard_classify_error m = ''File Not Found'')
   \<and> (\<not> (str_in ''401'' m \<or> str_in ''unauthorized'' (lower m))
        \<and> \<not> (str_in ''404'' m \<or> str_in ''not found'' (lower m))
        \<and> (str_in ''timeout'' (lower m) \<or> str_in ''timed out'' (lower m))
        \<longrightarrow> dashboard_classify_error m = ''Timeout'')
   \<and> (\<not> (str_in ''401'' m \<or> str_in ''unauthorized'' (lower m))
        \<and> \<not> (str_in ''404'' m \<or> str_in ''not found'' (lower m))
        \<and> \<not> (str_in ''timeout'' (lower m) \<or> str_in ''timed out'' (lower m))
        \<and> str_in ''connection'' (lower m)
        \<longrightarrow> dashboard_classify_error m = ''Connection'')
   \<and> (\<not> (str_in ''401'' m \<or> str_in ''unauthorized'' (lower m))
        \<and> \<not> (str_in ''404'' m \<or> str_in ''not found'' (lower m))
        \<and> \<not> (str_in ''timeout'' (lower m) \<or> str_in ''timed out'' (lower m))
        \<and> \<not> str_in ''connection'' (lower m)
        \<and> (str_in ''permission'' (lower m) \<or> str_in ''access'' (lower m))
        \<longrightarrow> dashboard_classify_error m = ''Permission'')
   \<and> (\<not> (str_in ''401'' m \<or> str_in ''unauthorized'' (lower m))
        \<and> \<not> (str_in ''404'' m \<or> str_in ''not found'' (lower m))
        \<and> \<not> (str_in ''timeout'' (lower m) \<or> str_in ''timed out'' (lower m))
        \<and> \<not> str_in ''connection'' (lower m)
        \<and> \<not> (str_in ''permission'' (lower m) \<or> str_in ''access'' (lower m))
        \<and> (str_in ''429'' m \<or> str_in ''rate limit'' (lower m))
        \<longrightarrow> dashboard_classify_error m = ''Rate Limit'')
   \<and> (\<not> (str_in ''401'' m \<or> str_in ''unauthorized'' (lower m))
        \<and> \<not> (str_in ''404'' m \<or> str_in ''not found'' (lower m))
        \<and> \<not> (str_in ''timeout'' (lower m) \<or> str_in ''timed out'' (lower m))
        \<and> \<not> str_in ''connection'' (lower m)
        \<and> \<not> (str_in ''permission'' (lower m) \<or> str_in ''access'' (lower m))
        \<and> \<not> (str_in ''429'' m \<or> str_in ''rate limit'' (lower m))
        \<and> (str_in ''500'' m \<or> str_in ''503'' m \<or> str_in ''502'' m)
        \<longrightarrow> dashboard_classify_error m = ''Server Error'')
   \<and> (\<not> (str_in ''401'' m \<or> str_in ''unauthorized'' (lower m))
        \<and> \<not> (str_in ''404'' m \<or> str_in ''not found'' (lower m))
        \<and> \<not> (str_in ''timeout'' (lower m) \<or> str_in ''timed out'' (lower m))
        \<and> \<not> str_in ''connection'' (lower m)
        \<and> \<not> (str_in ''permission'' (lower m) \<or> str_in ''access'' (lower m))
        \<and> \<not> (str_in ''429'' m \<or> str_in ''rate limit'' (lower m))
        \<and> \<not> (str_in ''500'' m \<or> str_in ''503'' m \<or> str_in ''502'' m)
        \<longrightarrow> dashboard_classify_error m = ''Other'')"
  by (simp add: classify_error_def dashboard_classify_error_def Let_def error_kinds_def)

text \<open>The theorem at a message with both \<open>401\<close> and \<open>timeout\<close>, and at one with
  both \<open>connection\<close> and \<open>access\<close>, which the dashboard's classifier takes as a
  connection error.\<close>

theorem classify_error_priority_witness:
  "str_in ''401'' ''HTTP 401 timeout'' \<and> str_in ''timeout'' (lower ''HTTP 401 timeout'')
   \<and> classify_error ''HTTP 401 timeout'' = ''Authentication''
   \<and> dashboard_classify_error ''HTTP 401 timeout'' = ''Authentication''
   \<and> str_in ''connection'' (lower ''connection access'')
   \<and> str_in ''access'' (lower ''connection access'')
   \<and> dashboard_classify_error ''connection access'' = ''Connection''"
proof -
  have h1: "str_in ''401'' ''HTTP 401 timeout''"
    by (simp add: str_in_def sublist_code prefix_code)
  have h2: "str_in ''timeout'' (lower ''HTTP 401 timeout'')"
    by (simp add: str_in_def lower_def lower_char_def sublist_code prefix_code)
  note inst = classify_error_priority [of "''HTTP 401 timeout''"]
  from inst h1 have c1: "classify_error ''HTTP 401 timeout'' = ''Authentication''"
    by simp
  from inst h1 have c2: "dashboard_classify_error ''HTTP 401 timeout'' = ''Authentication''"
    by simp
  have l: "lower ''connection access'' = ''connection access''"
    by (simp add: lower_def lower_char_def)
  have h3: "str_in ''connection'' (lower ''connection access'')"
    unfolding l by (simp add: str_in_def sublist_code prefix_code)
  have h4: "str_in ''access'' (lower ''connection access'')"
    unfolding l by (simp add: str_in_def sublist_code prefix_code)
  have n1: "\<not> str_in ''401'' ''connection access''"
    by (simp add: str_in_def sublist_code prefix_code)
  have n2: "\<not> str_in ''unauthorized'' (lower ''connection access'')"
    unfolding l by (simp add: str_in_def sublist_code prefix_code)
  have n3: "\<not> str_in ''404'' ''connection access''"
    by (simp add: str_in_def sublist_code prefix_code)
  have n4: "\<not> str_in ''not found'' (lower ''connection access'')"
    unfolding l by (simp add: str_in_def sublist_code prefix_code)
  have n5: "\<not> str_in ''timeout'' (lower ''connection access'')"
    unfolding l by (simp add: str_in_def sublist_code prefix_code)
  have n6: "\<not> str_in ''timed out'' (lower ''connection access'')"
    unfolding l by (simp add: str_in_def sublist_code prefix_code)
  note inst2 = classify_error_priority [of "''connection access''"]
  from inst2 h3 n1 n2 n3 n4 n5 n6
  have c3: "dashboard_classify_error ''connection access'' = ''Connection''"
    by simp
  from h1 h2 c1 c2 h3 h4 c3 show ?thesis by (intro conjI)
qed

text \<open>The dashboard's classifier leaves the set of seven kinds.\<close>

theorem dashboard_classify_error_counterexample:
  "dashboard_classify_error ''permission denied'' = ''Permission''
   \<and> dashboard_classify_error ''permission denied'' \<notin> error_kinds"
  by (simp add: dashboard_classify_error_def str_in_def lower_def lower_char_def
      error_kinds_def Let_def sublist_code prefix_code)

section \<open>Properties of a single upload\<close>

text \<open>
  Claim C10, as amended. Take an item with both paths present, not yet in
  \<open>completed_files\<close>, whose local file exists, and let the endpoint accept the Create
  request. If the file is empty, the upload sends the Create request and nothing else
  and returns success with size 0 (in the production script and in the working script
  alike), and applying that result records the key in \<open>completed_files\<close> with size 0.
  Whatever the content, the Append request is among the requests sent exactly when the
  size is positive, and, when the endpoint accepts the Append, so is the Flush request.
\<close>

theorem upload_empty_file:
  assumes "lp \<noteq> []" and "rp \<noteq> []" and "\<not> key_in rp (completed_files (progress s))"
    and "local_files e lp = Contents content"
    and "accepted e (Create (build_onelake_url (cfg e) rp))"
  shows "(content = [] \<longrightarrow>
            upload_file_async e (progress s) (FileInfo (Some lp) (Some rp) sz)
              = (Dict (Success rp 0 False), [Create (build_onelake_url (cfg e) rp)])
          \<and> working_upload_file_async e lp rp
              = (Success rp 0 False, [Create (build_onelake_url (cfg e) rp)])
          \<and> fst (record_result e b (c, s) (Dict (Success rp 0 False))) = Inr ()
          \<and> map_of (completed_files (progress (snd (snd
                (record_result e b (c, s) (Dict (Success rp 0 False))))))) rp
              = Some (CompletedEntry ''completed'' 0 (now e) (b + 1)))
       \<and> (Append (build_onelake_url (cfg e) rp) content
             \<in> set (snd (upload_file_async e (progress s) (FileInfo (Some lp) (Some rp) sz)))
            \<longleftrightarrow> 0 < length content)
       \<and> (accepted e (Append (build_onelake_url (cfg e) rp) content) \<longrightarrow>
            (Flush (build_onelake_url (cfg e) rp) (length content)
               \<in> set (snd (upload_file_async e (progress s) (FileInfo (Some lp) (Some rp) sz)))
             \<longleftrightarrow> 0 < length content))"
proof -
  let ?u = "build_onelake_url (cfg e) rp"
  obtain st body where cr: "server e (Create ?u) = Response st body" "st = 200 \<or> st = 201"
    using assms(5) by (auto simp: accepted_def split: response.splits)
  have up: "upload_file_async e (progress s) (FileInfo (Some lp) (Some rp) sz)
        = (Dict (fst (create_append_flush e rp content)), snd (create_append_flush e rp content))"
    using assms(1-4)
    by (simp add: upload_file_async_def falsy_def transfer_def case_prod_beta)
  have wk: "working_upload_file_async e lp rp = create_append_flush e rp content"
    using assms(4) by (simp add: working_upload_file_async_def)
  have e0: "content = [] \<Longrightarrow>
      create_append_flush e rp content = (Success rp 0 False, [Create ?u])"
    using cr by (auto simp: create_append_flush_def)
  have rec: "fst (record_result e b (c, s) (Dict (Success rp 0 False))) = Inr ()
      \<and> map_of (completed_files (progress (snd (snd
                (record_result e b (c, s) (Dict (Success rp 0 False))))))) rp
              = Some (CompletedEntry ''completed'' 0 (now e) (b + 1))"
    by (cases c) (simp add: record_result_def update_conv' Let_def split: prod.splits)
  have ap: "Append ?u content \<in> set (snd (create_append_flush e rp content))
      \<longleftrightarrow> 0 < length content"
    using cr by (auto simp: create_append_flush_def Let_def split: response.splits)
  have fl: "accepted e (Append ?u content) \<Longrightarrow>
      (Flush ?u (length content) \<in> set (snd (create_append_flush e rp content))
       \<longleftrightarrow> 0 < length content)"
    using cr
    by (auto simp: create_append_flush_def accepted_def Let_def split: response.splits)
  show ?thesis
    using e0 rec ap fl by (simp add: up wk)
qed

text \<open>The theorem at the empty file \<open>e\<close> of the example.\<close>

theorem upload_empty_file_witness:
  "''/data/e'' \<noteq> [] \<and> ''e'' \<noteq> []
   \<and> \<not> key_in ''e'' (completed_files (progress example_state))
   \<and> local_files example_env ''/data/e'' = Contents []
   \<and> accepted example_env (Create (build_onelake_url (cfg example_env) ''e''))
   \<and> upload_file_async example_env (progress example_state)
        (FileInfo (Some ''/data/e'') (Some ''e'') (Some 0))
      = (Dict (Success ''e'' 0 False), [Create (build_onelake_url (cfg example_env) ''e'')])"
proof -
  have h1: "''/data/e'' \<noteq> []" and h2: "''e'' \<noteq> []" by simp_all
  have h3: "\<not> key_in ''e'' (completed_files (progress example_state))"
    by (simp add: key_in_def example_state_def fresh_progress_def)
  have h4: "local_files example_env ''/data/e'' = Contents []"
    by (simp add: example_env_def)
  have h5: "accepted example_env (Create (build_onelake_url (cfg example_env) ''e''))"
    by (simp add: accepted_def example_env_def)
  from upload_empty_file [OF h1 h2 h3 h4 h5, of "Some 0"]
  have "upload_file_async example_env (progress example_state)
          (FileInfo (Some ''/data/e'') (Some ''e'') (Some 0))
        = (Dict (Success ''e'' 0 False), [Create (build_onelake_url (cfg example_env) ''e'')])"
    by simp
  with h1 h2 h3 h4 h5 show ?thesis by (intro conjI)
qed

text \<open>
  Outside these conditions an existing empty file is not uploaded with size 0. When its
  key is already in \<open>completed_files\<close>, no request is sent and the result is the
  skipped one, with the size the cache lists (7 here) and not the size of the file, and
  applying it leaves the completed map as it was. When the endpoint answers the Create
  request with status 500, the result is a failure.
\<close>

theorem upload_empty_file_counterexample:
  "local_files example_env ''/data/e'' = Contents []
   \<and> upload_file_async example_env
        (fresh_progress\<lparr>completed_files := [(''e'', CompletedEntry ''completed'' 7 900 1)]\<rparr>)
        (FileInfo (Some ''/data/e'') (Some ''e'') (Some 7))
      = (Dict (Success ''e'' 7 True), [])
   \<and> completed_files (progress (snd (snd (record_result example_env 0
        ((0, 0, 0),
         example_state\<lparr>progress :=
           fresh_progress\<lparr>completed_files := [(''e'', CompletedEntry ''completed'' 7 900 1)]\<rparr>\<rparr>)
        (Dict (Success ''e'' 7 True))))))
      = [(''e'', CompletedEntry ''completed'' 7 900 1)]
   \<and> upload_file_async (example_env\<lparr>server := (\<lambda>r. Response 500 ''down'')\<rparr>) fresh_progress
        (FileInfo (Some ''/data/e'') (Some ''e'') (Some 0))
      = (Dict (Failure (Some ''e'') (''Create failed: HTTP '' @ str_nat 500 @ '' - down'')),
         [Create (build_onelake_url (cfg example_env) ''e'')])"
  by (simp add: upload_file_async_def falsy_def key_in_def transfer_def
      create_append_flush_def example_env_def fresh_progress_def example_state_def
      record_result_def Let_def)

section \<open>Properties of loading the progress\<close>

text \<open>
  Claim C2, on the production script. When the progress file is absent,
  \<open>load_progress\<close> returns the fresh store, with all counters zero and nothing
  completed or failed. When the file is present and \<open>json.load\<close> rejects its text, the
  exception leaves \<open>load_progress\<close>, and the constructor and \<open>main\<close> with it: the
  process ends with status 1 and no run takes place. The optimized migrator's
  \<open>load_progress\<close> returns its initial dictionary in both cases.
\<close>

theorem load_progress_malformed_raises:
  "load_progress c (d(PROGRESS_FILE c := Malformed)) = Inl JSONDecodeError
   \<and> main e a (d(PROGRESS_FILE (cfg e) := Malformed)) = (1, None)
   \<and> load_progress c (d(PROGRESS_FILE c := NoFile)) = Inr fresh_progress
   \<and> optimized_load_progress f (d'(f := Malformed)) = init_progress
   \<and> optimized_load_progress f (d'(f := NoFile)) = init_progress"
  by (simp add: load_progress_def main_def optimized_load_progress_def)

section \<open>The run never stops on an upload\<close>

text \<open>With \<open>failed_files_list\<close> in the progress dictionary, no result makes the results
  loop raise, and the key stays.\<close>

lemma record_result_ok:
  "failed_files_list (progress s) \<noteq> None \<Longrightarrow>
     fst (record_result e b (c, s) r) = Inr ()
     \<and> failed_files_list (progress (snd (snd (record_result e b (c, s) r)))) \<noteq> None"
  by (cases c)
     (auto simp: record_result_def Let_def
           split: gathered.splits upload_result.splits prod.splits)

lemma record_results_ok:
  "failed_files_list (progress s) \<noteq> None \<Longrightarrow>
     fst (record_results e b (c, s) rs) = Inr ()
     \<and> failed_files_list (progress (snd (snd (record_results e b (c, s) rs)))) \<noteq> None"
proof (induction rs arbitrary: c s)
  case Nil
  then show ?case by simp
next
  case (Cons r rs)
  obtain x c1 s1 where rr: "record_result e b (c, s) r = (x, c1, s1)"
    by (cases "record_result e b (c, s) r") auto
  from record_result_ok [OF Cons.prems, of e b c r] rr
  have x: "x = Inr ()" and p1: "failed_files_list (progress s1) \<noteq> None" by simp_all
  from Cons.IH [OF p1, of c1] show ?case by (simp add: rr x)
qed

lemma record_batch_ok:
  assumes "failed_files_list (progress s) \<noteq> None"
  shows "fst (record_batch e files b s) = Inr ()
     \<and> failed_files_list (progress (snd (snd (record_batch e files b s)))) \<noteq> None"
proof -
  define s2 where
    "s2 = s\<lparr>progress := (progress s)\<lparr>current_batch := b + 1\<rparr>,
            sent := sent s @ concat (map snd (upload_batch e
                      ((progress s)\<lparr>current_batch := b + 1\<rparr>) (batch_of (cfg e) files b)))\<rparr>"
  have rb: "record_batch e files b s
      = record_results e b ((0, 0, 0), s2)
          (map fst (upload_batch e ((progress s)\<lparr>current_batch := b + 1\<rparr>)
                      (batch_of (cfg e) files b)))"
    by (simp add: record_batch_def Let_def s2_def)
  have "failed_files_list (progress s2) \<noteq> None" using assms by (simp add: s2_def)
  from record_results_ok [OF this] show ?thesis unfolding rb .
qed

lemma save_progress_failed_list:
  "failed_files_list (progress (snd (save_progress e s))) = failed_files_list (progress s)"
  by (cases "fault e") (simp_all add: save_progress_def Let_def)

lemma process_batch_ok:
  assumes "fault e = NoFault" and "failed_files_list (progress s) \<noteq> None"
  shows "fst (process_batch e files b s) = Inr ()
     \<and> failed_files_list (progress (snd (process_batch e files b s))) \<noteq> None"
proof -
  obtain x c s3 where rb: "record_batch e files b s = (x, c, s3)"
    by (cases "record_batch e files b s") auto
  from record_batch_ok [OF assms(2), of e files b] rb
  have x: "x = Inr ()" and p3: "failed_files_list (progress s3) \<noteq> None" by simp_all
  obtain r s4 where sp: "save_progress e s3 = (r, s4)"
    by (cases "save_progress e s3")
  from sp assms(1) have r: "r = Inr ()" by (auto simp: save_progress_def Let_def)
  from save_progress_failed_list [of e s3] sp p3
  have p4: "failed_files_list (progress s4) \<noteq> None" by simp
  show ?thesis
    using p4 by (simp add: process_batch_def rb x sp r split: prod.splits)
qed

lemma run_batches_ok:
  assumes "fault e = NoFault"
  shows "failed_files_list (progress s) \<noteq> None \<Longrightarrow>
     fst (run_batches e files bl s) = Inr ()
     \<and> failed_files_list (progress (snd (run_batches e files bl s))) \<noteq> None"
proof (induction bl arbitrary: s)
  case Nil
  then show ?case by simp
next
  case (Cons b bl)
  obtain r s' where ps: "process_batch e files b s = (r, s')"
    by (cases "process_batch e files b s")
  from process_batch_ok [OF assms Cons.prems, of files b] ps
  have r: "r = Inr ()" and p: "failed_files_list (progress s') \<noteq> None" by simp_all
  from Cons.IH [OF p] show ?case by (simp add: ps r)
qed


lemma get_access_token_progress: "progress (snd (get_access_token e s)) = progress s"
  by (simp add: get_access_token_def split: dotenv.splits option.splits)

lemma migrate_files_returns:
  assumes "fault e = NoFault" and "BATCH_SIZE (cfg e) \<noteq> 0"
    and "failed_files_list (progress s) \<noteq> None"
  shows "(\<exists>ok. fst (migrate_files e sb mb s) = Inr ok)
     \<and> failed_files_list (progress (snd (migrate_files e sb mb s))) \<noteq> None"
proof -
  obtain ok1 s1 where g: "get_access_token e s = (ok1, s1)"
    by (cases "get_access_token e s")
  from get_access_token_progress [of e s] g have p1: "progress s1 = progress s" by simp
  show ?thesis
  proof (cases "ok1 \<and> load_file_cache e \<noteq> []")
    case False
    then show ?thesis using p1 assms(3) by (auto simp: migrate_files_def g Let_def)
  next
    case True
    define s2 where
      "s2 = s1\<lparr>progress := (progress s1)\<lparr>total_files := int (length (load_file_cache e)),
                                             start_time := Some (now e)\<rparr>\<rparr>"
    have p2: "failed_files_list (progress s2) \<noteq> None"
      using p1 assms(3) by (simp add: s2_def)
    obtain r s3 where rb: "run_batches e (load_file_cache e)
        (batch_range (cfg e) (load_file_cache e) sb mb) s2 = (r, s3)"
      by (cases "run_batches e (load_file_cache e)
                   (batch_range (cfg e) (load_file_cache e) sb mb) s2")
    from run_batches_ok [OF assms(1) p2, of "load_file_cache e"
        "batch_range (cfg e) (load_file_cache e) sb mb"] rb
    have r: "r = Inr ()" and p3: "failed_files_list (progress s3) \<noteq> None" by simp_all
    from True assms(2) rb r p3 show ?thesis
      by (auto simp: migrate_files_def g Let_def s2_def)
  qed
qed

section \<open>Properties of the command-line entry point\<close>

text \<open>
  Claim C8, as amended. \<open>main\<close> has no \<open>sys.exit\<close>: the process ends with status 0
  whenever \<open>main\<close> returns, whatever the uploads did, and \<open>main\<close> returns whenever the
  progress file is absent or holds a progress dictionary with the key
  \<open>failed_files_list\<close>, as the production script itself writes it, the saves do not
  fail and the batch size is not zero. Failed items are reported in the log and in the
  progress file, not in the exit status.
\<close>

theorem main_exit_status:
  assumes "fault e = NoFault" and "BATCH_SIZE (cfg e) \<noteq> 0"
    and "d (PROGRESS_FILE (cfg e)) = NoFile
         \<or> (\<exists>p. d (PROGRESS_FILE (cfg e)) = Stored p \<and> failed_files_list p \<noteq> None)"
  shows "fst (main e a d) = 0"
proof -
  obtain p where lp: "load_progress (cfg e) d = Inr p" and fl: "failed_files_list p \<noteq> None"
    using assms(3) by (auto simp: load_progress_def fresh_progress_def)
  define m where
    "m = \<lparr>access_token = None, progress = p, disk = d, sent = [], log = [], saved = []\<rparr>"
  define sb where "sb = (if test_run a then 0 else start_batch a)"
  define mb where "mb = (if test_run a then Some 5 else max_batches a)"
  have "failed_files_list (progress m) \<noteq> None" using fl by (simp add: m_def)
  from migrate_files_returns [OF assms(1,2) this, of sb mb]
  obtain ok where "fst (migrate_files e sb mb m) = Inr ok" by blast
  then obtain s' where mg: "migrate_files e sb mb m = (Inr ok, s')"
    by (cases "migrate_files e sb mb m") simp
  have "main e a d =
      (if ok then (0, Some (s'\<lparr>log := log s' @ [MigrationCompletedSuccessfully]\<rparr>))
       else (0, Some (s'\<lparr>log := log s' @ [MigrationFailed]\<rparr>)))"
    using mg by (simp add: main_def lp Let_def m_def sb_def mb_def split: if_splits)
  then show ?thesis by simp
qed

theorem main_exit_status_witness:
  "fault example_env = NoFault \<and> BATCH_SIZE (cfg example_env) \<noteq> 0
   \<and> (\<lambda>f. NoFile :: progress stored) (PROGRESS_FILE (cfg example_env)) = NoFile
   \<and> fst (main example_env example_args (\<lambda>f. NoFile)) = 0"
proof -
  have h1: "fault example_env = NoFault" by (simp add: example_env_def)
  have h2: "BATCH_SIZE (cfg example_env) \<noteq> 0" by (simp add: example_env_def)
  have h3: "(\<lambda>f. NoFile :: progress stored) (PROGRESS_FILE (cfg example_env)) = NoFile"
    by simp
  from h3 have h3':
    "(\<lambda>f. NoFile :: progress stored) (PROGRESS_FILE (cfg example_env)) = NoFile
     \<or> (\<exists>p. (\<lambda>f. NoFile) (PROGRESS_FILE (cfg example_env)) = Stored p
             \<and> failed_files_list p \<noteq> None)" ..
  from main_exit_status [OF h1 h2 h3']
  have "fst (main example_env example_args (\<lambda>f. NoFile)) = 0" .
  with h1 h2 h3 show ?thesis by (intro conjI)
qed

text \<open>The example run leaves file \<open>c\<close> failed and exits with status 0.\<close>

theorem main_exit_status_counterexample:
  "(case main example_env example_args (\<lambda>f. NoFile) of
      (status, Some s) \<Rightarrow>
        status = 0 \<and> map_option length (failed_files_list (progress s)) = Some 1
        \<and> failed_files (progress s) = 1
    | (status, None) \<Rightarrow> False)"
  by code_simp

text \<open>
  The condition on the progress file is needed. Started on the progress file the
  auto-refresh migrator left, the production script counts the failure of \<open>c\<close> and
  then raises \<open>KeyError\<close> at the append to \<open>failed_files_list\<close>: the exception leaves
  the loop, \<open>migrate_files\<close> and \<open>main\<close>, the batch is not saved and the status is 1.
\<close>

lemma main_key_error_example:
  "(case main example_env example_args (\<lambda>f. Stored example_refresh_progress) of
      (status, Some s) \<Rightarrow>
        status = 1 \<and> failed_files (progress s) = 1 \<and> current_batch (progress s) = 2
        \<and> length (saved s) = 1
    | (status, None) \<Rightarrow> False)"
  by code_simp

section \<open>The batches of the loop\<close>

lemma concat_chunks_upto: "concat (map (\<lambda>k. take b (drop (k * b) xs)) [0 ..< n]) = take (n * b) xs"
proof (induction n)
  case 0
  then show ?case by simp
next
  case (Suc n)
  have "take (n * b + b) xs = take (n * b) xs @ take b (drop (n * b) xs)"
    by (rule take_add)
  with Suc show ?case by (simp add: add.commute)
qed

lemma ceil_mult_ge: "0 < b \<Longrightarrow> n \<le> (n + b - 1) div b * (b::nat)"
proof -
  assume b: "0 < b"
  let ?m = "n + b - 1"
  have "?m = ?m div b * b + ?m mod b" by simp
  moreover have "?m mod b < b" using b by simp
  ultimately show ?thesis using b by linarith
qed

lemma ceil_pos: "0 < b \<Longrightarrow> 0 < n \<Longrightarrow> 1 \<le> (n + b - 1) div (b::nat)"
proof -
  assume b: "0 < b" and n: "0 < n"
  then have "b \<le> n + b - 1" by simp
  then have "b div b \<le> (n + b - 1) div b" by (rule div_le_mono)
  with b show ?thesis by simp
qed

lemma ceil_pred_lt: "0 < b \<Longrightarrow> 0 < n \<Longrightarrow> ((n + b - 1) div b - 1) * (b::nat) < n"
proof -
  assume b: "0 < b" and n: "0 < n"
  let ?m = "n + b - 1"
  have 1: "?m div b * b \<le> ?m" by simp
  have 2: "1 \<le> ?m div b" using b n by (rule ceil_pos)
  have "(?m div b - 1) * b = ?m div b * b - b" by (simp add: diff_mult_distrib)
  with 1 2 b n show ?thesis by linarith
qed

lemma concat_chunks: "0 < b \<Longrightarrow> concat (chunks b xs) = xs"
  using ceil_mult_ge [of b "length xs"] by (simp add: chunks_def concat_chunks_upto)

lemma length_chunks: "length (chunks b xs) = (length xs + b - 1) div b"
  by (simp add: chunks_def)

lemma chunks_nth_length:
  assumes b: "0 < b" and k: "k < length (chunks b xs)"
  shows "length (chunks b xs ! k) = (if Suc k < length (chunks b xs) then b else length xs - k * b)"
    and "0 < length (chunks b xs ! k)" and "length (chunks b xs ! k) \<le> b"
proof -
  let ?n = "(length xs + b - 1) div b"
  have kn: "k < ?n" using k by (simp add: chunks_def)
  then have pos: "0 < length xs" using b by (cases "length xs = 0") auto
  have nth: "chunks b xs ! k = take b (drop (k * b) xs)"
    using kn by (simp add: chunks_def)
  have lt: "(?n - 1) * b < length xs" using b pos by (rule ceil_pred_lt)
  have "k \<le> ?n - 1" using kn by simp
  then have "k * b \<le> (?n - 1) * b" by (rule mult_le_mono1)
  from this lt have kb: "k * b < length xs" by (rule le_less_trans)
  show "0 < length (chunks b xs ! k)" using kb b by (simp add: nth)
  show "length (chunks b xs ! k) \<le> b" by (simp add: nth)
  show "length (chunks b xs ! k) = (if Suc k < length (chunks b xs) then b else length xs - k * b)"
  proof (cases "Suc k < ?n")
    case True
    then have "Suc k \<le> ?n - 1" by simp
    then have "Suc k * b \<le> (?n - 1) * b" by (rule mult_le_mono1)
    with lt have "k * b + b < length xs" by (simp add: add.commute)
    then show ?thesis using True by (simp add: nth length_chunks)
  next
    case False
    with kn have keq: "Suc k = ?n" by simp
    have "length xs \<le> ?n * b" using b by (rule ceil_mult_ge)
    with keq have "length xs \<le> k * b + b" by (metis add.commute mult_Suc)
    then show ?thesis using False by (simp add: nth length_chunks)
  qed
qed

lemma upto_map_int: "[0 .. int n - 1] = map int [0 ..< n]"
proof (induction n)
  case 0
  then show ?case by simp
next
  case (Suc n)
  have "[0 .. int (Suc n) - 1] = [0 .. int n - 1] @ [int n]"
    using upto_rec2 [of 0 "int n"] by simp
  with Suc show ?case by simp
qed

lemma py_slice_nat: "py_slice xs (int i) (int j) = take (j - i) (drop i xs)"
proof (cases "i \<le> length xs")
  case True
  show ?thesis
  proof (cases "j \<le> length xs")
    case True
    with \<open>i \<le> length xs\<close> show ?thesis
      by (simp add: py_slice_def Let_def min_def nat_diff_distrib')
  next
    case False
    with \<open>i \<le> length xs\<close> show ?thesis
      by (simp add: py_slice_def Let_def min_def nat_diff_distrib')
  qed
next
  case False
  then show ?thesis
    by (simp add: py_slice_def Let_def min_def)
qed

lemma batch_of_nat:
  assumes "BATCH_SIZE c = int b"
  shows "batch_of c files (int k) = take b (drop (k * b) files)"
proof -
  have "batch_of c files (int k)
      = py_slice files (int k * int b) (min (int k * int b + int b) (int (length files)))"
    by (simp add: batch_of_def assms Let_def)
  also have "\<dots> = py_slice files (int (k * b)) (int (min (k * b + b) (length files)))"
    by (simp only: of_nat_mult of_nat_add of_nat_min)
  also have "\<dots> = take (min (k * b + b) (length files) - k * b) (drop (k * b) files)"
    by (rule py_slice_nat)
  also have "\<dots> = take b (drop (k * b) files)"
    by (simp add: min_def)
  finally show ?thesis .
qed

lemma batch_range_nat:
  assumes "BATCH_SIZE c = int b" and "0 < b"
  shows "batch_range c files 0 None = map int [0 ..< (length files + b - 1) div b]"
proof -
  have "(int (length files) + int b - 1) div int b = int ((length files + b - 1) div b)"
    using assms(2) by (simp add: zdiv_int of_nat_diff)
  then show ?thesis
    by (simp add: batch_range_def assms(1) upto_map_int)
qed

lemma batches_are_chunks:
  assumes "BATCH_SIZE c = int b" and "0 < b"
  shows "map (batch_of c files) (batch_range c files 0 None) = chunks b files"
  by (simp add: batch_range_nat [OF assms] chunks_def batch_of_nat [OF assms(1)] comp_def)

lemma working_batches_are_chunks:
  assumes "BATCH_SIZE c = int b" and "0 < b"
  shows "working_batches c files = Inr (chunks b files)"
proof -
  have n: "(int (length files) + int b - 1) div int b = int ((length files + b - 1) div b)"
    using assms(2) by (simp add: zdiv_int of_nat_diff)
  have "\<And>k. py_slice files (int k * int b) (int k * int b + int b) = take b (drop (k * b) files)"
  proof -
    fix k
    have "py_slice files (int k * int b) (int k * int b + int b)
        = py_slice files (int (k * b)) (int (k * b + b))" by simp
    also have "\<dots> = take (k * b + b - k * b) (drop (k * b) files)" by (rule py_slice_nat)
    finally show "py_slice files (int k * int b) (int k * int b + int b) = take b (drop (k * b) files)"
      by simp
  qed
  then show ?thesis
    using assms(2) by (simp add: working_batches_def range_step_def assms(1) n chunks_def comp_def)
qed

text \<open>
  Claim C6, as amended. For a positive batch size \<open>b\<close>, a run over all batches cuts
  the whole file list, in its order and with the completed items still in it, into
  consecutive batches of exactly \<open>b\<close> items except a last one that may be smaller
  (and is not empty), and visits them in that order; the working script cuts its list
  in the same way. The completed items are skipped later, inside the upload.
\<close>

theorem batches_partition_whole_list:
  assumes "BATCH_SIZE c = int b" and "0 < b"
  shows "map (batch_of c files) (batch_range c files 0 None) = chunks b files
       \<and> working_batches c files = Inr (chunks b files)
       \<and> concat (chunks b files) = files
       \<and> (\<forall>k < length (chunks b files).
             length (chunks b files ! k)
               = (if Suc k < length (chunks b files) then b else length files - k * b)
             \<and> 0 < length (chunks b files ! k) \<and> length (chunks b files ! k) \<le> b)"
proof (intro conjI allI impI)
  show "map (batch_of c files) (batch_range c files 0 None) = chunks b files"
    using assms by (rule batches_are_chunks)
  show "working_batches c files = Inr (chunks b files)"
    using assms by (rule working_batches_are_chunks)
  show "concat (chunks b files) = files"
    using assms(2) by (rule concat_chunks)
next
  fix k
  assume k: "k < length (chunks b files)"
  show "length (chunks b files ! k)
          = (if Suc k < length (chunks b files) then b else length files - k * b)"
    using assms(2) k by (rule chunks_nth_length(1))
  show "0 < length (chunks b files ! k)"
    using assms(2) k by (rule chunks_nth_length(2))
  show "length (chunks b files ! k) \<le> b"
    using assms(2) k by (rule chunks_nth_length(3))
qed

text \<open>The five files of the example in batches of two: sizes 2, 2 and 1.\<close>

theorem batches_partition_whole_list_witness:
  "BATCH_SIZE (cfg example_env) = int 2 \<and> (0::nat) < 2
   \<and> map length (map (batch_of (cfg example_env) example_files)
                    (batch_range (cfg example_env) example_files 0 None)) = [2, 2, 1]"
proof -
  have h1: "BATCH_SIZE (cfg example_env) = int 2" by (simp add: example_env_def)
  have h2: "(0::nat) < 2" by simp
  have ev: "map length (chunks 2 example_files) = [2, 2, 1]" by code_simp
  from batches_partition_whole_list [OF h1 h2, of example_files]
  have "map (batch_of (cfg example_env) example_files)
          (batch_range (cfg example_env) example_files 0 None) = chunks 2 example_files"
    by (rule conjunct1)
  with ev have "map length (map (batch_of (cfg example_env) example_files)
                    (batch_range (cfg example_env) example_files 0 None)) = [2, 2, 1]"
    by simp
  with h1 h2 show ?thesis by (intro conjI)
qed

text \<open>With \<open>a\<close> already completed, the pending list has four items and its partition
  two batches; the run still takes three batches, the first with \<open>a\<close> in it.\<close>

theorem batches_of_pending_counterexample:
  "map (batch_of (cfg example_env) example_files)
     (batch_range (cfg example_env) example_files 0 None)
   \<noteq> chunks 2 (pending
        (fresh_progress\<lparr>completed_files := [(''a'', CompletedEntry ''completed'' 3 1000 1)]\<rparr>)
        example_files)"
  by code_simp

section \<open>Properties of saving the progress\<close>

text \<open>
  Claim C5, as amended. Every save overwrites the progress file in place: the file is
  opened for writing, which truncates it, and the serialised state is then written into
  it. No other path is touched (there is no temporary file and no rename), and the
  state the disk is in between the two steps holds a progress file that
  \<open>load_progress\<close> cannot read. Without a fault the save ends with the file holding
  the in-memory progress. In the auto-refresh migrator a save failure is logged, the
  save returns normally and the in-memory progress is unchanged.
\<close>

theorem save_progress_in_place:
  "(\<forall>d \<in> set (save_progress_steps e s). \<forall>f. f \<noteq> PROGRESS_FILE (cfg e) \<longrightarrow> d f = disk s f)
   \<and> load_progress (cfg e) (save_progress_steps e s ! 0) = Inl JSONDecodeError
   \<and> (fault e = NoFault \<longrightarrow>
         disk (snd (save_progress e s)) = save_progress_steps e s ! 1
         \<and> load_progress (cfg e) (disk (snd (save_progress e s)))
             = Inr ((progress s)\<lparr>last_update := Some (now e)\<rparr>))
   \<and> progress (refresh_save_progress e s) = progress s
   \<and> (fault e \<noteq> NoFault \<longrightarrow> log (refresh_save_progress e s) = log s @ [SaveFailed])
   \<and> (\<forall>f. f \<noteq> PROGRESS_FILE (cfg e) \<longrightarrow> disk (refresh_save_progress e s) f = disk s f)"
  by (cases "fault e")
    (simp_all add: save_progress_steps_def save_progress_def refresh_save_progress_def
      load_progress_def open_w_def json_dump_def Let_def)

theorem save_progress_in_place_witness:
  "save_progress_steps example_env example_state ! 0
     \<in> set (save_progress_steps example_env example_state)
   \<and> ''other.json'' \<noteq> PROGRESS_FILE (cfg example_env)
   \<and> (save_progress_steps example_env example_state ! 0) ''other.json''
       = disk example_state ''other.json''
   \<and> fault example_env = NoFault
   \<and> load_progress (cfg example_env) (disk (snd (save_progress example_env example_state)))
       = Inr ((progress example_state)\<lparr>last_update := Some (now example_env)\<rparr>)
   \<and> fault (example_env\<lparr>fault := OpenFails\<rparr>) \<noteq> NoFault
   \<and> log (refresh_save_progress (example_env\<lparr>fault := OpenFails\<rparr>) example_state)
       = log example_state @ [SaveFailed]
   \<and> disk (refresh_save_progress example_env example_state) ''other.json''
       = disk example_state ''other.json''"
proof -
  have h1: "save_progress_steps example_env example_state ! 0
      \<in> set (save_progress_steps example_env example_state)"
    by (simp add: save_progress_steps_def Let_def)
  have h2: "''other.json'' \<noteq> PROGRESS_FILE (cfg example_env)"
    by (simp add: example_env_def)
  have h3: "fault example_env = NoFault" by (simp add: example_env_def)
  have h4: "fault (example_env\<lparr>fault := OpenFails\<rparr>) \<noteq> NoFault" by simp
  note a = save_progress_in_place [of example_env example_state]
  note b = save_progress_in_place [of "example_env\<lparr>fault := OpenFails\<rparr>" example_state]
  from a h1 h2 have c1: "(save_progress_steps example_env example_state ! 0) ''other.json''
       = disk example_state ''other.json''" by simp
  have c2: "load_progress (cfg example_env)
        (disk (snd (save_progress example_env example_state)))
       = Inr ((progress example_state)\<lparr>last_update := Some (now example_env)\<rparr>)"
    by (rule a [THEN conjunct2, THEN conjunct2, THEN conjunct1, rule_format, OF h3,
          THEN conjunct2])
  from b h4 have c3: "log (refresh_save_progress (example_env\<lparr>fault := OpenFails\<rparr>) example_state)
       = log example_state @ [SaveFailed]" by simp
  from a h2 have c4: "disk (refresh_save_progress example_env example_state) ''other.json''
       = disk example_state ''other.json''" by simp
  from h1 h2 c1 h3 c2 h4 c3 c4 show ?thesis by (intro conjI)
qed

text \<open>A process killed between the two steps of a save leaves a progress file that the
  next start cannot load; and a failing \<open>open\<close> in the production script ends the
  batch loop with the exception.\<close>

theorem save_progress_not_atomic_counterexample:
  "load_progress (cfg example_env) (save_progress_steps example_env example_state ! 0)
     = Inl JSONDecodeError
   \<and> fst (save_progress (example_env\<lparr>fault := OpenFails\<rparr>) example_state) = Inl OSError
   \<and> fst (process_batch (example_env\<lparr>fault := OpenFails\<rparr>) example_files 0 example_state)
       = Inl OSError"
  by code_simp

section \<open>Properties of a raised exception in a batch\<close>











section \<open>The keys of the completed map after a run\<close>

lemma key_in_iff: "key_in k d \<longleftrightarrow> k \<in> fst ` set d"
  by (simp add: key_in_def map_of_eq_None_iff)

lemma create_append_flush_success:
  "fst (create_append_flush e rp content) = Success k n sk \<Longrightarrow> k = rp \<and> sk = False"
  by (auto simp: create_append_flush_def Let_def split: response.splits if_splits)

lemma transfer_success:
  "fst (transfer e lp rp) = Success k n sk \<Longrightarrow> k = rp \<and> sk = False"
  by (auto simp: transfer_def split: local_file.splits dest: create_append_flush_success)

lemma upload_new_key:
  "(\<exists>n. fst (upload_file_async e p i) = Dict (Success rp n False))
   \<longleftrightarrow> (uploads_ok e i \<and> relative_path_of i = Some rp \<and> \<not> key_in rp (completed_files p))"
proof (cases i)
  case NotADict
  then show ?thesis
    by (simp add: upload_file_async_def uploads_ok_def relative_path_of_def)
next
  case (FileInfo lpo rpo sz)
  show ?thesis
  proof (cases "falsy lpo \<or> falsy rpo")
    case True
    then show ?thesis using FileInfo
      by (auto simp: upload_file_async_def uploads_ok_def relative_path_of_def falsy_def
          split: option.splits)
  next
    case False
    then obtain lp r where l: "lpo = Some lp" "rpo = Some r" "lp \<noteq> []" "r \<noteq> []"
      by (auto simp: falsy_def split: option.splits)
    show ?thesis
    proof (cases "key_in r (completed_files p)")
      case True
      then show ?thesis using FileInfo l
        by (auto simp: upload_file_async_def uploads_ok_def relative_path_of_def falsy_def)
    next
      case False
      have up: "fst (upload_file_async e p i) = Dict (fst (transfer e lp r))"
        using FileInfo l False
        by (simp add: upload_file_async_def falsy_def case_prod_beta)
      have rel: "relative_path_of i = Some r"
        using FileInfo l by (simp add: relative_path_of_def)
      show ?thesis
      proof (cases "fst (transfer e lp r)")
        case (Success k n sk)
        from transfer_success [OF Success] have tr: "fst (transfer e lp r) = Success r n False"
          using Success by simp
        have ok: "uploads_ok e i"
          using FileInfo l tr by (simp add: uploads_ok_def)
        show ?thesis
          unfolding up tr rel using ok False by auto
      next
        case (Failure k m)
        have ok: "\<not> uploads_ok e i"
          using FileInfo l Failure by (simp add: uploads_ok_def)
        show ?thesis
          unfolding up Failure using ok by simp
      qed
    qed
  qed
qed

lemma record_result_keys:
  "completed_keys (progress (snd (snd (record_result e b (c, s) r))))
     = completed_keys (progress s) \<union> {rp. \<exists>n. r = Dict (Success rp n False)}"
proof -
  obtain c1 c2 c3 where c: "c = (c1, c2, c3)" by (cases c)
  show ?thesis
  proof (cases r)
    case (Dict u)
    then show ?thesis
      by (cases u)
         (auto simp: record_result_def Let_def c completed_keys_def dom_update
               split: option.splits)
  next
    case (Exception m)
    then show ?thesis by (simp add: record_result_def Let_def c completed_keys_def)
  qed
qed



lemma save_progress_progress:
  "progress (snd (save_progress e s)) = (progress s)\<lparr>last_update := Some (now e)\<rparr>"
  by (cases "fault e") (simp_all add: save_progress_def Let_def)

lemma process_batch_progress:
  "progress (snd (process_batch e files b s))
     = (if fst (record_batch e files b s) = Inr ()
        then (progress (snd (snd (record_batch e files b s))))\<lparr>last_update := Some (now e)\<rparr>
        else progress (snd (snd (record_batch e files b s))))"
proof -
  obtain x c s3 where rb: "record_batch e files b s = (x, c, s3)"
    by (cases "record_batch e files b s") auto
  obtain r s4 where sp: "save_progress e s3 = (r, s4)"
    by (cases "save_progress e s3")
  from save_progress_progress [of e s3] sp
  have p4: "progress s4 = (progress s3)\<lparr>last_update := Some (now e)\<rparr>" by simp
  show ?thesis
  proof (cases x)
    case (Inl err)
    then show ?thesis by (simp add: process_batch_def rb)
  next
    case (Inr u)
    then show ?thesis using p4
      by (cases r; cases c) (simp_all add: process_batch_def rb sp)
  qed
qed

lemma upload_file_async_cong:
  "completed_files p' = completed_files p \<Longrightarrow>
   upload_file_async e p' i = upload_file_async e p i"
proof (cases i)
  case NotADict
  then show ?thesis by (simp add: upload_file_async_def)
next
  case (FileInfo lpo rpo sz)
  assume a: "completed_files p' = completed_files p"
  show ?thesis
    by (cases lpo; cases rpo) (simp_all add: FileInfo upload_file_async_def falsy_def a)
qed

lemma upload_batch_cong:
  "completed_files p' = completed_files p \<Longrightarrow> upload_batch e p' batch = upload_batch e p batch"
proof -
  assume a: "completed_files p' = completed_files p"
  have "\<And>i. upload_file_async e p' i = upload_file_async e p i"
    using a by (rule upload_file_async_cong)
  then show ?thesis by (simp add: upload_batch_def)
qed

lemma record_batch_unfold:
  "record_batch e files b s
     = record_results e b
         ((0, 0, 0),
          s\<lparr>progress := (progress s)\<lparr>current_batch := b + 1\<rparr>,
            sent := sent s @ concat (map snd (upload_batch e (progress s)
                                               (batch_of (cfg e) files b)))\<rparr>)
         (map fst (upload_batch e (progress s) (batch_of (cfg e) files b)))"
proof -
  have ub: "upload_batch e ((progress s)\<lparr>current_batch := b + 1\<rparr>) (batch_of (cfg e) files b)
      = upload_batch e (progress s) (batch_of (cfg e) files b)"
    by (rule upload_batch_cong) simp
  show ?thesis by (simp add: record_batch_def Let_def ub)
qed






lemma set_py_slice: "set (py_slice xs i j) \<subseteq> set xs"
proof -
  have "\<And>n m. set (take n (drop m xs)) \<subseteq> set xs"
    by (meson set_drop_subset set_take_subset subset_trans)
  then show ?thesis by (simp add: py_slice_def Let_def)
qed

lemma set_batch_of: "set (batch_of c files b) \<subseteq> set files"
  by (simp add: batch_of_def Let_def set_py_slice)



section \<open>The requests of a run\<close>
















section \<open>Properties of a resumed run\<close>





text \<open>The requests of the repeated run on the example: the five files were gone
  through, \<open>c\<close> failed for want of its local file, and the repeated run sends
  nothing, since the transfer of \<open>c\<close> stops before any request.\<close>

lemma resumed_requests_example:
  "requests_of example_env
     (progress (snd (migrate_files example_env 0 None example_state)))
     (load_file_cache example_env) = []
   \<and> map fst (completed_files (progress (snd (migrate_files example_env 0 None example_state))))
      = [''a'', ''b'', ''d'', ''e'']"
  by code_simp

section \<open>The conservation sum\<close>

lemma length_update_le: "length (AList.update k v al) \<le> Suc (length al)"
  by (induction al) auto

lemma length_update_new: "k \<notin> fst ` set al \<Longrightarrow> length (AList.update k v al) = Suc (length al)"
  by (induction al) auto

lemma record_result_tally:
  "tally (progress (snd (snd (record_result e b (c, s) r)))) \<le> tally (progress s) + 1"
  "total_files (progress (snd (snd (record_result e b (c, s) r)))) = total_files (progress s)"
  "saved (snd (snd (record_result e b (c, s) r))) = saved s"
proof -
  obtain c1 c2 c3 where c: "c = (c1, c2, c3)" by (cases c)
  have "tally (progress (snd (snd (record_result e b (c, s) r)))) \<le> tally (progress s) + 1
      \<and> total_files (progress (snd (snd (record_result e b (c, s) r)))) = total_files (progress s)
      \<and> saved (snd (snd (record_result e b (c, s) r))) = saved s"
  proof (cases r)
    case (Dict u)
    show ?thesis
    proof (cases u)
      case (Success k n sk)
      have "int (length (AList.update k (CompletedEntry ''completed'' n (now e) (b + 1))
                (completed_files (progress s)))) \<le> int (length (completed_files (progress s))) + 1"
        using length_update_le [of k "CompletedEntry ''completed'' n (now e) (b + 1)"
            "completed_files (progress s)"] by linarith
      then show ?thesis using Dict Success
        by (simp add: record_result_def Let_def c tally_def)
    next
      case (Failure k m)
      then show ?thesis using Dict
        by (simp add: record_result_def Let_def c tally_def split: option.splits)
    qed
  next
    case (Exception m)
    then show ?thesis by (simp add: record_result_def Let_def c tally_def)
  qed
  then show "tally (progress (snd (snd (record_result e b (c, s) r)))) \<le> tally (progress s) + 1"
    and "total_files (progress (snd (snd (record_result e b (c, s) r)))) = total_files (progress s)"
    and "saved (snd (snd (record_result e b (c, s) r))) = saved s" by simp_all
qed

lemma record_results_tally:
  "tally (progress (snd (snd (record_results e b (c, s) rs))))
     \<le> tally (progress s) + int (length rs)
   \<and> total_files (progress (snd (snd (record_results e b (c, s) rs)))) = total_files (progress s)
   \<and> saved (snd (snd (record_results e b (c, s) rs))) = saved s"
proof (induction rs arbitrary: c s)
  case Nil
  then show ?case by simp
next
  case (Cons r rs)
  obtain x c1 s1 where a: "record_result e b (c, s) r = (x, c1, s1)"
    by (cases "record_result e b (c, s) r") auto
  from record_result_tally [of e b c s r] a
  have 1: "tally (progress s1) \<le> tally (progress s) + 1"
    and 2: "total_files (progress s1) = total_files (progress s)"
    and 3: "saved s1 = saved s" by simp_all
  show ?case
  proof (cases x)
    case (Inl err)
    then show ?thesis using 1 2 3 by (simp add: a)
  next
    case (Inr u)
    then show ?thesis using Cons.IH [of c1 s1] 1 2 3 by (simp add: a)
  qed
qed

lemma record_batch_tally:
  "tally (progress (snd (snd (record_batch e files b s))))
     \<le> tally (progress s) + int (length (batch_of (cfg e) files b))
   \<and> total_files (progress (snd (snd (record_batch e files b s)))) = total_files (progress s)
   \<and> saved (snd (snd (record_batch e files b s))) = saved s"
proof -
  let ?batch = "batch_of (cfg e) files b"
  let ?s2 = "s\<lparr>progress := (progress s)\<lparr>current_batch := b + 1\<rparr>,
              sent := sent s @ concat (map snd (upload_batch e (progress s) ?batch))\<rparr>"
  have len: "length (map fst (upload_batch e (progress s) ?batch)) = length ?batch"
    by (simp add: upload_batch_def)
  have t: "tally (progress ?s2) = tally (progress s)" by (simp add: tally_def)
  from record_results_tally [of e b "(0, 0, 0)" ?s2 "map fst (upload_batch e (progress s) ?batch)"]
  show ?thesis unfolding record_batch_unfold len t by simp
qed

lemma save_progress_saved:
  "saved (snd (save_progress e s)) = saved s
   \<or> saved (snd (save_progress e s)) = saved s @ [progress (snd (save_progress e s))]"
  by (cases "fault e") (simp_all add: save_progress_def Let_def)

lemma process_batch_saved:
  "saved (snd (process_batch e files b s)) = saved s
   \<or> saved (snd (process_batch e files b s)) = saved s @ [progress (snd (process_batch e files b s))]"
proof -
  obtain x c s3 where rb: "record_batch e files b s = (x, c, s3)"
    by (cases "record_batch e files b s") auto
  obtain r s4 where sp: "save_progress e s3 = (r, s4)"
    by (cases "save_progress e s3")
  from record_batch_tally [of e files b s] rb have s3: "saved s3 = saved s" by simp
  from save_progress_saved [of e s3] sp s3
  have s4: "saved s4 = saved s \<or> saved s4 = saved s @ [progress s4]" by simp
  show ?thesis
  proof (cases x)
    case (Inl err)
    then show ?thesis using s3 by (simp add: process_batch_def rb)
  next
    case (Inr u)
    then show ?thesis using s4
      by (cases r; cases c) (simp_all add: process_batch_def rb sp)
  qed
qed

lemma tally_last_update: "tally (p\<lparr>last_update := t\<rparr>) = tally p"
  by (simp add: tally_def)

lemma process_batch_tally:
  "tally (progress (snd (process_batch e files b s)))
     \<le> tally (progress s) + int (length (batch_of (cfg e) files b))
   \<and> total_files (progress (snd (process_batch e files b s))) = total_files (progress s)"
  using record_batch_tally [of e files b s]
  by (simp add: process_batch_progress tally_last_update)

lemma upto_map_int_nat: "[int m .. int n - 1] = map int [m ..< n]"
proof (induction n)
  case 0
  then show ?case by simp
next
  case (Suc k)
  show ?case
  proof (cases "m \<le> k")
    case True
    then have "[int m .. int (Suc k) - 1] = [int m .. int k - 1] @ [int k]"
      using upto_rec2 [of "int m" "int k"] by simp
    with Suc True show ?thesis by simp
  next
    case False
    then show ?thesis by simp
  qed
qed

lemma upto_map_int_gen: "0 \<le> i \<Longrightarrow> [i .. j - 1] = map int [nat i ..< nat j]"
proof (cases "0 \<le> j")
  case True
  assume "0 \<le> i"
  with True upto_map_int_nat [of "nat i" "nat j"] show ?thesis by simp
next
  case False
  assume "0 \<le> i"
  with False show ?thesis by simp
qed

lemma take_step_length:
  "int (length (take (i * b) xs)) + int (length (take b (drop (i * b) xs)))
     = int (length (take (Suc i * b) xs))"
proof -
  have "take (i * b + b) xs = take (i * b) xs @ take b (drop (i * b) xs)" by (rule take_add)
  then have "length (take (Suc i * b) xs)
      = length (take (i * b) xs) + length (take b (drop (i * b) xs))"
    by (metis length_append add.commute mult_Suc)
  then show ?thesis by simp
qed

lemma run_batches_checkpoints:
  assumes B: "BATCH_SIZE (cfg e) = int b"
  shows "tally (progress s) \<le> int (length (take (i * b) files)) \<Longrightarrow>
    total_files (progress s) = int (length files) \<Longrightarrow>
    \<forall>p \<in> set (saved s). tally p \<le> total_files p \<Longrightarrow>
    \<forall>p \<in> set (saved (snd (run_batches e files (map int [i ..< j]) s))). tally p \<le> total_files p"
proof (induction n \<equiv> "j - i" arbitrary: i s)
  case 0
  then show ?case by simp
next
  case (Suc n)
  then have ij: "i < j" and n: "n = j - Suc i" by simp_all
  have l: "map int [i ..< j] = int i # map int [Suc i ..< j]"
    using ij by (simp add: upt_rec)
  obtain r s1 where ps: "process_batch e files (int i) s = (r, s1)"
    by (cases "process_batch e files (int i) s")
  from process_batch_tally [of e files "int i" s] ps
  have t1: "tally (progress s1) \<le> tally (progress s) + int (length (batch_of (cfg e) files (int i)))"
    and tot1: "total_files (progress s1) = total_files (progress s)" by simp_all
  have "tally (progress s1) \<le> int (length (take (i * b) files))
          + int (length (take b (drop (i * b) files)))"
    using t1 Suc.prems(1) by (simp add: batch_of_nat [OF B])
  then have inv1: "tally (progress s1) \<le> int (length (take (Suc i * b) files))"
    by (simp only: take_step_length)
  have tot: "total_files (progress s1) = int (length files)"
    using tot1 Suc.prems(2) by simp
  have "int (length (take (Suc i * b) files)) \<le> int (length files)" by simp
  with inv1 have "tally (progress s1) \<le> int (length files)" by (rule order_trans)
  then have new: "tally (progress s1) \<le> total_files (progress s1)" using tot by simp
  from process_batch_saved [of e files "int i" s] ps
  have "saved s1 = saved s \<or> saved s1 = saved s @ [progress s1]" by simp
  with new Suc.prems(3) have sv: "\<forall>p \<in> set (saved s1). tally p \<le> total_files p" by auto
  show ?case
  proof (cases r)
    case (Inl x)
    then show ?thesis using ps sv by (simp add: l)
  next
    case (Inr u)
    from Suc.hyps(1) [OF n inv1 tot sv] show ?thesis using ps Inr by (simp add: l)
  qed
qed

lemma get_access_token_saved: "saved (snd (get_access_token e s)) = saved s"
  by (simp add: get_access_token_def split: dotenv.splits option.splits)

lemma migrate_files_checkpoints:
  assumes B: "BATCH_SIZE (cfg e) = int b" and sb: "0 \<le> sb"
    and fresh: "progress s = fresh_progress" and sv: "saved s = []"
  shows "\<forall>p \<in> set (saved (snd (migrate_files e sb mb s))). tally p \<le> total_files p"
proof -
  obtain ok1 s1 where g: "get_access_token e s = (ok1, s1)"
    by (cases "get_access_token e s")
  from get_access_token_progress [of e s] g have p1: "progress s1 = progress s" by simp
  from get_access_token_saved [of e s] g have sv1: "saved s1 = []" using sv by simp
  show ?thesis
  proof (cases "ok1 \<and> load_file_cache e \<noteq> [] \<and> BATCH_SIZE (cfg e) \<noteq> 0")
    case False
    then show ?thesis using sv1 by (auto simp: migrate_files_def g Let_def)
  next
    case True
    let ?files = "load_file_cache e"
    define s2 where
      "s2 = s1\<lparr>progress := (progress s1)\<lparr>total_files := int (length ?files),
                                             start_time := Some (now e)\<rparr>\<rparr>"
    obtain j where bl: "batch_range (cfg e) ?files sb mb = map int [nat sb ..< j]"
      using upto_map_int_gen [OF sb] by (simp add: batch_range_def Let_def)
    obtain r s3 where rb: "run_batches e ?files (map int [nat sb ..< j]) s2 = (r, s3)"
      by (cases "run_batches e ?files (map int [nat sb ..< j]) s2")
    have t2: "tally (progress s2) \<le> int (length (take (nat sb * b) ?files))"
      by (simp add: s2_def p1 fresh tally_def fresh_progress_def)
    have tot2: "total_files (progress s2) = int (length ?files)" by (simp add: s2_def)
    have sv2: "\<forall>p \<in> set (saved s2). tally p \<le> total_files p" by (simp add: s2_def sv1)
    from run_batches_checkpoints [OF B t2 tot2 sv2, of j] rb
    have "\<forall>p \<in> set (saved s3). tally p \<le> total_files p" by simp
    moreover have "saved (snd (migrate_files e sb mb s)) = saved s3"
      using True rb by (cases r) (simp_all add: migrate_files_def g Let_def s2_def bl)
    ultimately show ?thesis by simp
  qed
qed

lemma record_result_tally_exact:
  assumes "r = Dict u"
    and "\<And>rp n. u = Success rp n False \<Longrightarrow> rp \<notin> completed_keys (progress s)"
    and "failed_files_list (progress s) \<noteq> None"
  shows "tally (progress (snd (snd (record_result e b (c, s) r)))) = tally (progress s) + 1"
proof -
  obtain c1 c2 c3 where c: "c = (c1, c2, c3)" by (cases c)
  show ?thesis
  proof (cases u)
    case (Success k n sk)
    show ?thesis
    proof (cases sk)
      case True
      then show ?thesis using assms(1) Success
        by (simp add: record_result_def Let_def c tally_def)
    next
      case False
      with assms(2) Success have "k \<notin> fst ` set (completed_files (progress s))"
        by (simp add: completed_keys_def)
      then have "length (AList.update k (CompletedEntry ''completed'' n (now e) (b + 1))
                (completed_files (progress s))) = Suc (length (completed_files (progress s)))"
        by (rule length_update_new)
      then show ?thesis using assms(1) Success False
        by (simp add: record_result_def Let_def c tally_def)
    qed
  next
    case (Failure k m)
    then show ?thesis using assms(1,3)
      by (auto simp: record_result_def Let_def c tally_def)
  qed
qed

lemma upload_is_dict:
  "i \<noteq> NotADict \<Longrightarrow> \<exists>u. fst (upload_file_async e p i) = Dict u"
proof (cases i)
  case NotADict
  assume "i \<noteq> NotADict"
  with NotADict show ?thesis by simp
next
  case (FileInfo lpo rpo sz)
  show ?thesis
    by (cases lpo; cases rpo)
      (simp_all add: FileInfo upload_file_async_def falsy_def case_prod_beta)
qed

lemma record_results_tally_exact:
  assumes "\<forall>i \<in> set items. i \<noteq> NotADict"
    and "distinct (map relative_path_of items)"
    and "\<forall>i \<in> set items. \<forall>rp. relative_path_of i = Some rp \<longrightarrow>
            rp \<in> completed_keys (progress s) \<longrightarrow> key_in rp (completed_files p0)"
    and "failed_files_list (progress s) \<noteq> None"
  shows "tally (progress (snd (snd (record_results e b (c, s)
            (map (\<lambda>i. fst (upload_file_async e p0 i)) items)))))
         = tally (progress s) + int (length items)"
  using assms
proof (induction items arbitrary: c s)
  case Nil
  then show ?case by simp
next
  case (Cons i items)
  let ?r = "fst (upload_file_async e p0 i)"
  from Cons.prems(1) have "i \<noteq> NotADict" by simp
  then obtain u where u: "?r = Dict u" using upload_is_dict by blast
  obtain x c1 s1 where a: "record_result e b (c, s) ?r = (x, c1, s1)"
    by (cases "record_result e b (c, s) ?r") auto
  from record_result_ok [OF Cons.prems(4), of e b c ?r] a
  have x: "x = Inr ()" and p4: "failed_files_list (progress s1) \<noteq> None" by simp_all
  have new: "\<And>rp n. u = Success rp n False \<Longrightarrow>
      relative_path_of i = Some rp \<and> \<not> key_in rp (completed_files p0)"
  proof -
    fix rp n
    assume "u = Success rp n False"
    with u have "\<exists>n. fst (upload_file_async e p0 i) = Dict (Success rp n False)" by auto
    then show "relative_path_of i = Some rp \<and> \<not> key_in rp (completed_files p0)"
      by (simp add: upload_new_key)
  qed
  have fresh: "\<And>rp n. u = Success rp n False \<Longrightarrow> rp \<notin> completed_keys (progress s)"
  proof -
    fix rp n
    assume "u = Success rp n False"
    from new [OF this] Cons.prems(3) show "rp \<notin> completed_keys (progress s)" by auto
  qed
  from record_result_tally_exact [OF u fresh Cons.prems(4), where e = e and b = b and c = c] a
  have t1: "tally (progress s1) = tally (progress s) + 1" by simp
  from record_result_keys [of e b c s ?r] a u
  have k1: "completed_keys (progress s1)
      = completed_keys (progress s) \<union> {rp. \<exists>n. u = Success rp n False}" by simp
  have p3: "\<forall>i' \<in> set items. \<forall>rp. relative_path_of i' = Some rp \<longrightarrow>
            rp \<in> completed_keys (progress s1) \<longrightarrow> key_in rp (completed_files p0)"
  proof (intro ballI allI impI)
    fix i' rp
    assume i': "i' \<in> set items" and rel: "relative_path_of i' = Some rp"
      and mem: "rp \<in> completed_keys (progress s1)"
    from Cons.prems(2) i' have ne: "relative_path_of i \<noteq> relative_path_of i'" by auto
    from mem k1 have "rp \<in> completed_keys (progress s) \<or> (\<exists>n. u = Success rp n False)" by auto
    then show "key_in rp (completed_files p0)"
    proof
      assume "rp \<in> completed_keys (progress s)"
      with Cons.prems(3) i' rel show ?thesis by auto
    next
      assume "\<exists>n. u = Success rp n False"
      then obtain n where "u = Success rp n False" by blast
      from new [OF this] rel ne show ?thesis by simp
    qed
  qed
  from Cons.prems(1) have p1: "\<forall>i \<in> set items. i \<noteq> NotADict" by simp
  from Cons.prems(2) have p2: "distinct (map relative_path_of items)" by simp
  from Cons.IH [OF p1 p2 p3 p4, of c1] a x t1 show ?case by simp
qed

lemma record_batch_tally_exact:
  assumes "\<forall>i \<in> set (batch_of (cfg e) files b). i \<noteq> NotADict"
    and "distinct (map relative_path_of (batch_of (cfg e) files b))"
    and "failed_files_list (progress s) \<noteq> None"
  shows "tally (progress (snd (snd (record_batch e files b s))))
         = tally (progress s) + int (length (batch_of (cfg e) files b))"
proof -
  let ?batch = "batch_of (cfg e) files b"
  let ?s2 = "s\<lparr>progress := (progress s)\<lparr>current_batch := b + 1\<rparr>,
              sent := sent s @ concat (map snd (upload_batch e (progress s) ?batch))\<rparr>"
  have eq: "record_batch e files b s
      = record_results e b ((0, 0, 0), ?s2)
          (map (\<lambda>i. fst (upload_file_async e (progress s) i)) ?batch)"
    unfolding record_batch_unfold by (simp add: upload_batch_def comp_def)
  have t: "tally (progress ?s2) = tally (progress s)" by (simp add: tally_def)
  have p3: "\<forall>i \<in> set ?batch. \<forall>rp. relative_path_of i = Some rp \<longrightarrow>
            rp \<in> completed_keys (progress ?s2) \<longrightarrow> key_in rp (completed_files (progress s))"
    by (simp add: completed_keys_def key_in_iff)
  have p4: "failed_files_list (progress ?s2) \<noteq> None" using assms(3) by simp
  from record_results_tally_exact [OF assms(1,2) p3 p4, where e = e and b = b and c = "(0, 0, 0)"]
  show ?thesis unfolding eq t .
qed

lemma process_batch_tally_exact:
  assumes "\<forall>i \<in> set (batch_of (cfg e) files b). i \<noteq> NotADict"
    and "distinct (map relative_path_of (batch_of (cfg e) files b))"
    and "failed_files_list (progress s) \<noteq> None"
  shows "tally (progress (snd (process_batch e files b s)))
         = tally (progress s) + int (length (batch_of (cfg e) files b))"
  using record_batch_tally_exact [OF assms]
  by (simp add: process_batch_progress tally_last_update)

lemma run_batches_tally_exact:
  assumes B: "BATCH_SIZE (cfg e) = int b" and nf: "fault e = NoFault"
    and d: "\<forall>i \<in> set files. i \<noteq> NotADict" and dist: "distinct (map relative_path_of files)"
  shows "tally (progress s) = int (length (take (i * b) files)) \<Longrightarrow> i \<le> j \<Longrightarrow>
    failed_files_list (progress s) \<noteq> None \<Longrightarrow>
    tally (progress (snd (run_batches e files (map int [i ..< j]) s)))
      = int (length (take (j * b) files))"
proof (induction n \<equiv> "j - i" arbitrary: i s)
  case 0
  then show ?case by simp
next
  case (Suc n)
  then have ij: "i < j" and n: "n = j - Suc i" by simp_all
  have l: "map int [i ..< j] = int i # map int [Suc i ..< j]"
    using ij by (simp add: upt_rec)
  have bo: "batch_of (cfg e) files (int i) = take b (drop (i * b) files)"
    by (rule batch_of_nat [OF B])
  have d1: "\<forall>x \<in> set (batch_of (cfg e) files (int i)). x \<noteq> NotADict"
    using d set_batch_of [of "cfg e" files "int i"] by auto
  have "map relative_path_of (take b (drop (i * b) files))
      = take b (drop (i * b) (map relative_path_of files))"
    by (simp add: take_map drop_map)
  then have d2: "distinct (map relative_path_of (batch_of (cfg e) files (int i)))"
    using dist by (simp add: bo distinct_take distinct_drop)
  obtain r s1 where ps: "process_batch e files (int i) s = (r, s1)"
    by (cases "process_batch e files (int i) s")
  from process_batch_ok [OF nf Suc.prems(3), of files "int i"] ps
  have r: "r = Inr ()" and p1: "failed_files_list (progress s1) \<noteq> None" by simp_all
  from process_batch_tally_exact [OF d1 d2 Suc.prems(3)] ps
  have "tally (progress s1) = tally (progress s) + int (length (take b (drop (i * b) files)))"
    by (simp add: bo)
  with Suc.prems(1) have "tally (progress s1) = int (length (take (i * b) files))
      + int (length (take b (drop (i * b) files)))" by simp
  then have inv1: "tally (progress s1) = int (length (take (Suc i * b) files))"
    by (simp only: take_step_length)
  from ij have le: "Suc i \<le> j" by simp
  from Suc.hyps(1) [OF n inv1 le p1] show ?case using ps r by (simp add: l)
qed

lemma run_batches_total:
  "total_files (progress (snd (run_batches e files bl s))) = total_files (progress s)"
proof (induction bl arbitrary: s)
  case Nil
  then show ?case by simp
next
  case (Cons b bl)
  obtain r s1 where ps: "process_batch e files b s = (r, s1)"
    by (cases "process_batch e files b s")
  from process_batch_tally [of e files b s] ps
  have "total_files (progress s1) = total_files (progress s)" by simp
  with Cons.IH [of s1] ps show ?case by (cases r) simp_all
qed

lemma migrate_files_tally_exact:
  assumes B: "BATCH_SIZE (cfg e) = int b" and b: "0 < b" and nf: "fault e = NoFault"
    and fresh: "progress s = fresh_progress"
    and d: "\<forall>i \<in> set (load_file_cache e). i \<noteq> NotADict"
    and dist: "distinct (map relative_path_of (load_file_cache e))"
  shows "tally (progress (snd (migrate_files e 0 None s)))
         = total_files (progress (snd (migrate_files e 0 None s)))"
proof -
  obtain ok1 s1 where g: "get_access_token e s = (ok1, s1)"
    by (cases "get_access_token e s")
  from get_access_token_progress [of e s] g have p1: "progress s1 = fresh_progress"
    using fresh by simp
  show ?thesis
  proof (cases "ok1 \<and> load_file_cache e \<noteq> []")
    case False
    then show ?thesis using p1
      by (auto simp: migrate_files_def g Let_def tally_def fresh_progress_def)
  next
    case True
    let ?files = "load_file_cache e"
    let ?n = "(length ?files + b - 1) div b"
    define s2 where
      "s2 = s1\<lparr>progress := (progress s1)\<lparr>total_files := int (length ?files),
                                             start_time := Some (now e)\<rparr>\<rparr>"
    have bl: "batch_range (cfg e) ?files 0 None = map int [0 ..< ?n]"
      using B b by (rule batch_range_nat)
    obtain r s3 where rb: "run_batches e ?files (map int [0 ..< ?n]) s2 = (r, s3)"
      by (cases "run_batches e ?files (map int [0 ..< ?n]) s2")
    have pr2: "failed_files_list (progress s2) \<noteq> None"
      by (simp add: s2_def p1 fresh_progress_def)
    from run_batches_ok [OF nf pr2, of ?files "map int [0 ..< ?n]"] rb
    have r: "r = Inr ()" by simp
    have t2: "tally (progress s2) = int (length (take (0 * b) ?files))"
      by (simp add: s2_def p1 tally_def fresh_progress_def)
    from run_batches_tally_exact [OF B nf d dist t2 _ pr2, of ?n] rb
    have "tally (progress s3) = int (length (take (?n * b) ?files))" by simp
    moreover have "length ?files \<le> ?n * b" using b by (rule ceil_mult_ge)
    ultimately have t3: "tally (progress s3) = int (length ?files)" by simp
    from run_batches_total [of e ?files "map int [0 ..< ?n]" s2] rb
    have tot3: "total_files (progress s3) = int (length ?files)" by (simp add: s2_def)
    have m: "progress (snd (migrate_files e 0 None s)) = progress s3"
      using True B b rb r by (simp add: migrate_files_def g Let_def s2_def bl)
    show ?thesis unfolding m using t3 tot3 by simp
  qed
qed

section \<open>Properties of the conservation sum\<close>

text \<open>
  Claim C3, as amended. In a run that starts from the empty progress store, with a
  positive batch size and a start batch that is not negative, every checkpoint written
  satisfies \<open>len(completed) + len(failed) + skipped \<le> total\<close>. When that run is
  complete, has no write fault, and every cached item is a dictionary with a
  \<open>relative_path\<close> of its own, the sum equals \<open>total\<close> at the end. Nothing is
  claimed for a run resumed from a store that is not empty.
\<close>

theorem conservation_on_fresh_run:
  assumes "BATCH_SIZE (cfg e) = int b" and "0 < b"
    and "progress s = fresh_progress" and "saved s = []"
  shows "(0 \<le> sb \<longrightarrow>
            (\<forall>p \<in> set (saved (snd (migrate_files e sb mb s))). tally p \<le> total_files p))
       \<and> (fault e = NoFault \<and> (\<forall>i \<in> set (load_file_cache e). i \<noteq> NotADict)
            \<and> distinct (map relative_path_of (load_file_cache e)) \<longrightarrow>
            tally (progress (snd (migrate_files e 0 None s)))
              = total_files (progress (snd (migrate_files e 0 None s))))"
proof (intro conjI impI)
  assume "0 \<le> sb"
  with assms(1) show "\<forall>p \<in> set (saved (snd (migrate_files e sb mb s))). tally p \<le> total_files p"
    using assms(3,4) by (rule migrate_files_checkpoints)
next
  assume a: "fault e = NoFault \<and> (\<forall>i \<in> set (load_file_cache e). i \<noteq> NotADict)
            \<and> distinct (map relative_path_of (load_file_cache e))"
  then have nf: "fault e = NoFault"
    and d: "\<forall>i \<in> set (load_file_cache e). i \<noteq> NotADict"
    and dist: "distinct (map relative_path_of (load_file_cache e))" by simp_all
  from assms(1,2) nf assms(3) d dist
  show "tally (progress (snd (migrate_files e 0 None s)))
              = total_files (progress (snd (migrate_files e 0 None s)))"
    by (rule migrate_files_tally_exact)
qed

theorem conservation_on_fresh_run_witness:
  "BATCH_SIZE (cfg example_env) = int 2 \<and> (0::nat) < 2
   \<and> progress example_state = fresh_progress \<and> saved example_state = []
   \<and> (0::int) \<le> 0
   \<and> list_all (\<lambda>p. tally p \<le> total_files p)
         (saved (snd (migrate_files example_env 0 None example_state)))
   \<and> fault example_env = NoFault
   \<and> NotADict \<notin> set (load_file_cache example_env)
   \<and> distinct (map relative_path_of (load_file_cache example_env))
   \<and> tally (progress (snd (migrate_files example_env 0 None example_state)))
      = total_files (progress (snd (migrate_files example_env 0 None example_state)))"
proof -
  have h1: "BATCH_SIZE (cfg example_env) = int 2" by (simp add: example_env_def)
  have h2: "(0::nat) < 2" by simp
  have h3: "progress example_state = fresh_progress" by (simp add: example_state_def)
  have h4: "saved example_state = []" by (simp add: example_state_def)
  have h5: "(0::int) \<le> 0" by simp
  have h6: "fault example_env = NoFault" by (simp add: example_env_def)
  have h7: "NotADict \<notin> set (load_file_cache example_env)"
    by (simp add: load_file_cache_def example_env_def example_files_def)
  then have h7': "\<forall>i \<in> set (load_file_cache example_env). i \<noteq> NotADict" by metis
  have h8: "distinct (map relative_path_of (load_file_cache example_env))"
    by (simp add: load_file_cache_def example_env_def example_files_def relative_path_of_def)
  note t = conservation_on_fresh_run [OF h1 h2 h3 h4]
  from t [where sb = 0 and mb = None, THEN conjunct1, THEN mp, OF h5]
  have c1: "list_all (\<lambda>p. tally p \<le> total_files p)
         (saved (snd (migrate_files example_env 0 None example_state)))"
    by (simp only: list_all_iff)
  from h6 h7' h8 have "fault example_env = NoFault
      \<and> (\<forall>i \<in> set (load_file_cache example_env). i \<noteq> NotADict)
      \<and> distinct (map relative_path_of (load_file_cache example_env))" by (intro conjI)
  from t [THEN conjunct2, THEN mp, OF this]
  have c2: "tally (progress (snd (migrate_files example_env 0 None example_state)))
      = total_files (progress (snd (migrate_files example_env 0 None example_state)))" .
  from h1 h2 h3 h4 h5 c1 h6 h7 h8 c2 show ?thesis by (intro conjI)
qed

text \<open>A cache with the single file \<open>a\<close>, run twice from the command line: the second
  run loads the progress the first one saved, skips \<open>a\<close>, and its checkpoint has one
  completed key and one skip against a total of one.\<close>

theorem conservation_on_resume_counterexample:
  "(case main (example_env\<lparr>file_cache :=
                 CacheFiles [FileInfo (Some ''/data/a'') (Some ''a'') (Some 3)]\<rparr>)
          example_args (\<lambda>f. NoFile) of
      (st1, Some s1) \<Rightarrow>
        (case main (example_env\<lparr>file_cache :=
                      CacheFiles [FileInfo (Some ''/data/a'') (Some ''a'') (Some 3)]\<rparr>)
                example_args (disk s1) of
           (st2, Some s2) \<Rightarrow>
             saved s2 \<noteq> [] \<and> tally (last (saved s2)) = 2
             \<and> total_files (last (saved s2)) = 1
             \<and> \<not> tally (last (saved s2)) \<le> total_files (last (saved s2))
         | (st2, None) \<Rightarrow> False)
    | (st1, None) \<Rightarrow> False)"
  by code_simp

section \<open>What happens to the progress file\<close>

lemma save_progress_keeps_files:
  "disk s f \<noteq> NoFile \<Longrightarrow> disk (snd (save_progress e s)) f \<noteq> NoFile"
  by (cases "fault e") (simp_all add: save_progress_def Let_def open_w_def json_dump_def)

lemma record_result_disk: "disk (snd (snd (record_result e b (c, s) r))) = disk s"
proof -
  obtain c1 c2 c3 where c: "c = (c1, c2, c3)" by (cases c)
  show ?thesis
  proof (cases r)
    case (Dict u)
    then show ?thesis
      by (cases u) (simp_all add: record_result_def Let_def c split: option.splits)
  next
    case (Exception m)
    then show ?thesis by (simp add: record_result_def Let_def c)
  qed
qed

lemma record_results_disk: "disk (snd (snd (record_results e b (c, s) rs))) = disk s"
proof (induction rs arbitrary: c s)
  case Nil
  then show ?case by simp
next
  case (Cons r rs)
  obtain x c1 s1 where a: "record_result e b (c, s) r = (x, c1, s1)"
    by (cases "record_result e b (c, s) r") auto
  from record_result_disk [of e b c s r] a have l: "disk s1 = disk s" by simp
  show ?case
  proof (cases x)
    case (Inl err)
    then show ?thesis using l by (simp add: a)
  next
    case (Inr u)
    then show ?thesis using Cons.IH [of c1 s1] l by (simp add: a)
  qed
qed

lemma record_batch_disk: "disk (snd (snd (record_batch e files b s))) = disk s"
  by (simp add: record_batch_def Let_def record_results_disk)

lemma process_batch_keeps_files:
  assumes "disk s f \<noteq> NoFile"
  shows "disk (snd (process_batch e files b s)) f \<noteq> NoFile"
proof -
  obtain x c s3 where rb: "record_batch e files b s = (x, c, s3)"
    by (cases "record_batch e files b s") auto
  obtain r s4 where sp: "save_progress e s3 = (r, s4)"
    by (cases "save_progress e s3")
  from record_batch_disk [of e files b s] rb assms have d3: "disk s3 f \<noteq> NoFile" by simp
  from save_progress_keeps_files [OF this, of e] sp have d4: "disk s4 f \<noteq> NoFile" by simp
  show ?thesis
  proof (cases x)
    case (Inl err)
    then show ?thesis using d3 by (simp add: process_batch_def rb)
  next
    case (Inr u)
    then show ?thesis using d4
      by (cases r; cases c) (simp_all add: process_batch_def rb sp)
  qed
qed

lemma run_batches_keeps_files:
  "disk s f \<noteq> NoFile \<Longrightarrow> disk (snd (run_batches e files bl s)) f \<noteq> NoFile"
proof (induction bl arbitrary: s)
  case Nil
  then show ?case by simp
next
  case (Cons b bl)
  obtain r s1 where ps: "process_batch e files b s = (r, s1)"
    by (cases "process_batch e files b s")
  from process_batch_keeps_files [OF Cons.prems, of e files b] ps
  have "disk s1 f \<noteq> NoFile" by simp
  with Cons.IH [of s1] ps show ?case by (cases r) simp_all
qed

lemma get_access_token_disk: "disk (snd (get_access_token e s)) = disk s"
  by (simp add: get_access_token_def split: dotenv.splits option.splits)

lemma migrate_files_keeps_files:
  assumes "disk s f \<noteq> NoFile"
  shows "disk (snd (migrate_files e sb mb s)) f \<noteq> NoFile"
proof -
  obtain ok1 s1 where g: "get_access_token e s = (ok1, s1)"
    by (cases "get_access_token e s")
  from get_access_token_disk [of e s] g assms have d1: "disk s1 f \<noteq> NoFile" by simp
  show ?thesis
  proof (cases "ok1 \<and> load_file_cache e \<noteq> [] \<and> BATCH_SIZE (cfg e) \<noteq> 0")
    case False
    then show ?thesis using d1 by (auto simp: migrate_files_def g Let_def)
  next
    case True
    define s2 where
      "s2 = s1\<lparr>progress := (progress s1)\<lparr>total_files := int (length (load_file_cache e)),
                                             start_time := Some (now e)\<rparr>\<rparr>"
    let ?bl = "batch_range (cfg e) (load_file_cache e) sb mb"
    obtain r s3 where rb: "run_batches e (load_file_cache e) ?bl s2 = (r, s3)"
      by (cases "run_batches e (load_file_cache e) ?bl s2")
    have "disk s2 f \<noteq> NoFile" using d1 by (simp add: s2_def)
    from run_batches_keeps_files [OF this, of e "load_file_cache e" ?bl] rb
    have "disk s3 f \<noteq> NoFile" by simp
    then show ?thesis
      using True rb by (cases r) (simp_all add: migrate_files_def g Let_def s2_def)
  qed
qed

lemma download_worker_keeps_files:
  assumes "turbo_disk (shared w) f \<noteq> NoFile"
  shows "turbo_disk (shared (download_worker e l pf w fd)) f \<noteq> NoFile"
proof -
  obtain index file_info where fd: "fd = (index, file_info)" by (cases fd)
  show ?thesis
    using assms
    by (cases "turbo_fault e")
      (simp_all add: download_worker_def fd Let_def case_prod_beta open_w_def json_dump_def)
qed

lemma foldl_worker_keeps_files:
  "turbo_disk (shared w) f \<noteq> NoFile \<Longrightarrow>
   turbo_disk (shared (foldl (download_worker e l pf) w fds)) f \<noteq> NoFile"
proof (induction fds arbitrary: w)
  case Nil
  then show ?case by simp
next
  case (Cons fd fds)
  from download_worker_keeps_files [OF Cons.prems, of e l pf fd]
  have "turbo_disk (shared (download_worker e l pf w fd)) f \<noteq> NoFile" .
  from Cons.IH [OF this] show ?case by simp
qed

section \<open>Properties of the life of the progress file\<close>

text \<open>
  Claim C9, as amended. The production migrator never removes a file: a progress file
  that exists before a run exists after it. The turbo downloader removes its progress
  file itself when a run ends with no failed result; when some result failed, a
  progress file that existed before the run is still there. \<open>clear_cache\<close>, the
  operator's command, removes \<open>download_progress.json\<close>.
\<close>

theorem progress_file_cleanup:
  "(disk s f \<noteq> NoFile \<longrightarrow> disk (snd (migrate_files e sb mb s)) f \<noteq> NoFile)
   \<and> (failed (fst (download_all_files_turbo te files l st)) = [] \<longrightarrow>
        turbo_disk (snd (download_all_files_turbo te files l st))
          (path_join l ''download_progress_turbo.json'') = NoFile)
   \<and> (failed (fst (download_all_files_turbo te files l st)) \<noteq> []
        \<and> turbo_disk st (path_join l ''download_progress_turbo.json'') \<noteq> NoFile \<longrightarrow>
        turbo_disk (snd (download_all_files_turbo te files l st))
          (path_join l ''download_progress_turbo.json'') \<noteq> NoFile)
   \<and> clear_cache l d (path_join l ''download_progress.json'') = NoFile"
proof (intro conjI impI)
  assume "disk s f \<noteq> NoFile"
  then show "disk (snd (migrate_files e sb mb s)) f \<noteq> NoFile"
    by (rule migrate_files_keeps_files)
next
  assume "failed (fst (download_all_files_turbo te files l st)) = []"
  then show "turbo_disk (snd (download_all_files_turbo te files l st))
          (path_join l ''download_progress_turbo.json'') = NoFile"
    by (simp add: download_all_files_turbo_def Let_def case_prod_beta)
next
  assume a: "failed (fst (download_all_files_turbo te files l st)) \<noteq> []
        \<and> turbo_disk st (path_join l ''download_progress_turbo.json'') \<noteq> NoFile"
  let ?pf = "path_join l ''download_progress_turbo.json''"
  have "\<And>w0 fds. shared w0 = st \<Longrightarrow>
      turbo_disk (shared (foldl (download_worker te l ?pf) w0 fds)) ?pf \<noteq> NoFile"
    using a foldl_worker_keeps_files by simp
  then show "turbo_disk (snd (download_all_files_turbo te files l st)) ?pf \<noteq> NoFile"
    using a by (simp add: download_all_files_turbo_def Let_def case_prod_beta)
next
  show "clear_cache l d (path_join l ''download_progress.json'') = NoFile"
    by (simp add: clear_cache_def)
qed

text \<open>The theorem on the examples: the production run keeps its progress file; the
  download of \<open>b.pdf\<close> succeeds and the progress file is gone; the download of
  \<open>c.pdf\<close> fails and the progress file stays.\<close>

theorem progress_file_cleanup_witness:
  "disk (example_state\<lparr>disk := (\<lambda>f. Stored fresh_progress)\<rparr>) ''progress.json'' \<noteq> NoFile
   \<and> disk (snd (migrate_files example_env 0 None
              (example_state\<lparr>disk := (\<lambda>f. Stored fresh_progress)\<rparr>))) ''progress.json''
       \<noteq> NoFile
   \<and> failed (fst (download_all_files_turbo example_turbo_env example_turbo_files ''dl''
                    example_turbo_state)) = []
   \<and> turbo_disk (snd (download_all_files_turbo example_turbo_env example_turbo_files ''dl''
                        example_turbo_state))
        (path_join ''dl'' ''download_progress_turbo.json'') = NoFile
   \<and> failed (fst (download_all_files_turbo example_turbo_env example_turbo_files_bad ''dl''
                    example_turbo_state)) \<noteq> []
   \<and> turbo_disk example_turbo_state (path_join ''dl'' ''download_progress_turbo.json'')
       \<noteq> NoFile
   \<and> turbo_disk (snd (download_all_files_turbo example_turbo_env example_turbo_files_bad
                        ''dl'' example_turbo_state))
        (path_join ''dl'' ''download_progress_turbo.json'') \<noteq> NoFile"
proof -
  have h1: "disk (example_state\<lparr>disk := (\<lambda>f. Stored fresh_progress)\<rparr>) ''progress.json''
      \<noteq> NoFile" by simp
  have h2: "failed (fst (download_all_files_turbo example_turbo_env example_turbo_files ''dl''
                    example_turbo_state)) = []" by code_simp
  have h3: "failed (fst (download_all_files_turbo example_turbo_env example_turbo_files_bad
                    ''dl'' example_turbo_state)) \<noteq> []" by code_simp
  have h4: "turbo_disk example_turbo_state (path_join ''dl'' ''download_progress_turbo.json'')
      \<noteq> NoFile" by (simp add: example_turbo_state_def path_join_def)
  note t = progress_file_cleanup
  from t [where s = "example_state\<lparr>disk := (\<lambda>f. Stored fresh_progress)\<rparr>"
        and f = "''progress.json''" and e = example_env and sb = 0 and mb = None,
        THEN conjunct1, THEN mp, OF h1]
  have c1: "disk (snd (migrate_files example_env 0 None
              (example_state\<lparr>disk := (\<lambda>f. Stored fresh_progress)\<rparr>))) ''progress.json''
       \<noteq> NoFile" .
  from t [where te = example_turbo_env and files = example_turbo_files and l = "''dl''"
        and st = example_turbo_state, THEN conjunct2, THEN conjunct1, THEN mp, OF h2]
  have c2: "turbo_disk (snd (download_all_files_turbo example_turbo_env example_turbo_files
                        ''dl'' example_turbo_state))
        (path_join ''dl'' ''download_progress_turbo.json'') = NoFile" .
  from h3 h4 have pre: "failed (fst (download_all_files_turbo example_turbo_env
        example_turbo_files_bad ''dl'' example_turbo_state)) \<noteq> []
      \<and> turbo_disk example_turbo_state (path_join ''dl'' ''download_progress_turbo.json'')
          \<noteq> NoFile" by (intro conjI)
  from t [where te = example_turbo_env and files = example_turbo_files_bad and l = "''dl''"
        and st = example_turbo_state, THEN conjunct2, THEN conjunct2, THEN conjunct1,
        THEN mp, OF pre]
  have c3: "turbo_disk (snd (download_all_files_turbo example_turbo_env example_turbo_files_bad
                        ''dl'' example_turbo_state))
        (path_join ''dl'' ''download_progress_turbo.json'') \<noteq> NoFile" .
  from h1 c1 h2 c2 h3 h4 c3 show ?thesis by (intro conjI)
qed

text \<open>A run of the turbo downloader that ends with everything downloaded and nothing
  failed: the progress file that was on the disk before the run is not there after.\<close>

theorem progress_file_deleted_counterexample:
  "turbo_disk example_turbo_state ''dl/download_progress_turbo.json'' \<noteq> NoFile
   \<and> failed (fst (download_all_files_turbo example_turbo_env example_turbo_files ''dl''
                    example_turbo_state)) = []
   \<and> map (\<lambda>r. case r of DownloadSuccess f l sk \<Rightarrow> f | DownloadFailed f err \<Rightarrow> f)
         (success (fst (download_all_files_turbo example_turbo_env example_turbo_files ''dl''
                          example_turbo_state))) = [''a.pdf'', ''b.pdf'']
   \<and> turbo_disk (snd (download_all_files_turbo example_turbo_env example_turbo_files ''dl''
                        example_turbo_state)) ''dl/download_progress_turbo.json'' = NoFile"
  by code_simp

end
